theory Spec2Isabelle
  imports Main
begin

section \<open>Parser state, token buffer and memo chains (pegen.c, lines 104-297)\<close>

text \<open>
  The C structs \<^verbatim>\<open>Memo\<close>, \<^verbatim>\<open>Token\<close> and \<^verbatim>\<open>Parser\<close> become records. A memo chain, a
  singly linked list threaded through \<^verbatim>\<open>next\<close>, is a list whose head is the entry that
  \<^verbatim>\<open>t->memo\<close> points to. The node stored in an entry is a \<^verbatim>\<open>void *\<close>: a value of an
  arbitrary type \<open>'n\<close>, with \<open>None\<close> for the null pointer.

  Indices (\<^verbatim>\<open>mark\<close>, \<^verbatim>\<open>fill\<close>, \<^verbatim>\<open>size\<close>, the field \<open>p_size\<close>) are natural numbers. An access
  \<^verbatim>\<open>p->tokens[i]\<close> outside the \<^verbatim>\<open>size\<close> allocated slots has no defined behaviour in C;
  the functions below return \<open>None\<close> there.

  The arena is a collaborator. All that the functions of this section observe of it is
  whether \<^verbatim>\<open>PyArena_Malloc\<close> returns a block: \<open>arena\<close> counts the blocks it still
  hands out. The interpreter's pending exception, global in C, is the field \<open>err\<close>.
\<close>

datatype error =
    SyntaxError string
  | MemoryError string
  | OverflowError string
  | SystemError
  | CollaboratorError

record 'n Memo =
  m_type :: int
  m_node :: "'n option"
  m_mark :: nat

record 'n Token =
  t_type :: int
  t_bytes :: string
  t_lineno :: int
  t_col_offset :: int
  t_end_lineno :: int
  t_end_col_offset :: int
  t_memo :: "'n Memo list"

text \<open>
  The lexer is a collaborator: \<^verbatim>\<open>PyTokenizer_Get\<close> returns a token kind and two pointers
  into its buffer and updates the fields \<^verbatim>\<open>lineno\<close>, \<^verbatim>\<open>first_lineno\<close>,
  \<^verbatim>\<open>line_start\<close> and \<^verbatim>\<open>multi_line_start\<close>. A lexer state is the sequence of the
  answers it is going to give and the number of answers given so far; pointers are
  offsets into the lexer's buffer, \<open>None\<close> for a null pointer.
\<close>

record lexeme =
  lx_type :: int
  lx_start :: "nat option"
  lx_end :: "nat option"
  lx_text :: string
  lx_lineno :: int
  lx_first_lineno :: int
  lx_line_start :: nat
  lx_multi_line_start :: nat

record tok_state =
  tok_answers :: "nat \<Rightarrow> lexeme"
  tok_calls :: nat

definition PyTokenizer_Get :: "tok_state \<Rightarrow> lexeme \<times> tok_state" where
  "PyTokenizer_Get tk = (tok_answers tk (tok_calls tk), tk\<lparr>tok_calls := Suc (tok_calls tk)\<rparr>)"

record 'n Parser =
  tok :: tok_state
  tokens :: "'n Token list"
  mark :: nat
  fill :: nat
  p_size :: nat
  arena :: nat
  keywords_tab :: "nat \<Rightarrow> (string \<times> int) list option"
  n_keyword_lists :: nat
  err :: "error option"

text \<open>Modelled from the spec: the token kinds \<^verbatim>\<open>NAME\<close>, \<^verbatim>\<open>STRING\<close> and the error
  sentinel are members of the lexer's closed set of kinds. The header \<^verbatim>\<open>token.h\<close> that
  numbers them is not part of the sources; the numbers are those of CPython 3.8, and
  only their being distinct matters below.\<close>

definition NAME :: int where "NAME = 1"
definition STRING :: int where "STRING = 3"
definition ERRORTOKEN :: int where "ERRORTOKEN = 59"

definition PyArena_Malloc :: "'n Parser \<Rightarrow> bool \<times> 'n Parser" where
  "PyArena_Malloc p = (if arena p = 0 then (False, p) else (True, p\<lparr>arena := arena p - 1\<rparr>))"

text \<open>\<^verbatim>\<open>insert_memo\<close>: a new entry in front of the chain of token \<open>mark\<close>; the position
  stored is the parser's current \<^verbatim>\<open>p->mark\<close>.\<close>

definition insert_memo :: "'n Parser \<Rightarrow> nat \<Rightarrow> int \<Rightarrow> 'n option \<Rightarrow> (int \<times> 'n Parser) option" where
  "insert_memo p mark' type node =
     (case PyArena_Malloc p of
        (False, p1) \<Rightarrow> Some (-1, p1)
      | (True, p1) \<Rightarrow>
          if mark' < length (tokens p1) then
            let t = tokens p1 ! mark';
                m = \<lparr>m_type = type, m_node = node, m_mark = mark p1\<rparr>
            in Some (0, p1\<lparr>tokens := (tokens p1)[mark' := t\<lparr>t_memo := m # t_memo t\<rparr>]\<rparr>)
          else None)"



text \<open>\<^verbatim>\<open>_get_keyword_or_name_type\<close>: a linear search of the bucket for the name's length.
  The bucket's sentinel entry (type -1) is the end of the list.\<close>

fun keyword_search :: "(string \<times> int) list \<Rightarrow> string \<Rightarrow> nat \<Rightarrow> int" where
  "keyword_search [] name name_len = NAME"
| "keyword_search ((str, ty) # ks) name name_len =
     (if take name_len str = take name_len name then ty else keyword_search ks name name_len)"

definition get_keyword_or_name_type :: "'n Parser \<Rightarrow> string \<Rightarrow> nat \<Rightarrow> int" where
  "get_keyword_or_name_type p name name_len =
     (if name_len \<ge> n_keyword_lists p then NAME
      else case keywords_tab p name_len of
             None \<Rightarrow> NAME
           | Some ks \<Rightarrow> keyword_search ks name name_len)"

text \<open>\<^verbatim>\<open>fill_token\<close>. When the buffer is full it doubles, the new slots zeroed. The slot
  filled keeps its memo chain: the function does not assign \<^verbatim>\<open>t->memo\<close>. The calls
  to \<^verbatim>\<open>PyMem_Realloc\<close>, \<^verbatim>\<open>PyMem_Malloc\<close> and \<^verbatim>\<open>PyBytes_FromStringAndSize\<close> are taken
  to succeed.\<close>

definition zero_Token :: "'n Token" where
  "zero_Token = \<lparr>t_type = 0, t_bytes = [], t_lineno = 0, t_col_offset = 0,
                 t_end_lineno = 0, t_end_col_offset = 0, t_memo = []\<rparr>"

definition grow_tokens :: "'n Parser \<Rightarrow> 'n Parser" where
  "grow_tokens p =
     (let newsize = p_size p * 2
      in p\<lparr>tokens := take (p_size p) (tokens p) @ replicate (newsize - p_size p) zero_Token,
           p_size := newsize\<rparr>)"

definition fill_token :: "'n Parser \<Rightarrow> (int \<times> 'n Parser) option" where
  "fill_token p =
     (let (lx, tk) = PyTokenizer_Get (tok p);
          p1 = p\<lparr>tok := tk\<rparr>
      in if lx_type lx = ERRORTOKEN then
           Some (-1, if err p1 = None
                     then p1\<lparr>err := Some (SyntaxError ''Tokenizer returned error token'')\<rparr>
                     else p1)
         else
           let p2 = (if fill p1 = p_size p1 then grow_tokens p1 else p1) in
           if fill p2 < length (tokens p2) then
             let t = tokens p2 ! fill p2;
                 type = lx_type lx;
                 lineno = (if type = STRING then lx_first_lineno lx else lx_lineno lx);
                 line_start = (if type = STRING then lx_multi_line_start lx else lx_line_start lx);
                 col_offset = (case lx_start lx of
                                 Some s \<Rightarrow> if s \<ge> line_start then int s - int line_start else -1
                               | None \<Rightarrow> -1);
                 end_col_offset = (case lx_end lx of
                                 Some e \<Rightarrow> if e \<ge> lx_line_start lx
                                           then int e - int (lx_line_start lx) else -1
                               | None \<Rightarrow> -1);
                 t' = t\<lparr>t_type := (if type = NAME
                                     then get_keyword_or_name_type p2 (lx_text lx) (length (lx_text lx))
                                     else type),
                        t_bytes := lx_text lx,
                        t_lineno := lineno,
                        t_col_offset := col_offset,
                        t_end_lineno := lx_lineno lx,
                        t_end_col_offset := end_col_offset\<rparr>
             in Some (0, p2\<lparr>tokens := (tokens p2)[fill p2 := t'], fill := fill p2 + 1\<rparr>)
           else None)"

text \<open>The scan of \<^verbatim>\<open>is_memoized\<close> over a memo chain: the first entry of the type.\<close>

fun memo_scan :: "'n Memo list \<Rightarrow> int \<Rightarrow> 'n Memo option" where
  "memo_scan [] type = None"
| "memo_scan (m # ms) type = (if m_type m = type then Some m else memo_scan ms type)"

text \<open>\<^verbatim>\<open>is_memoized\<close> returns -1, 0 or 1; the second component is what it writes to
  \<^verbatim>\<open>*pres\<close> (\<open>None\<close> when it writes nothing, \<open>Some v\<close> when it writes the pointer \<open>v\<close>).\<close>

definition is_memoized_at :: "'n Parser \<Rightarrow> int \<Rightarrow> (int \<times> 'n option option \<times> 'n Parser) option" where
  "is_memoized_at p type =
     (if mark p < length (tokens p) then
        (case memo_scan (t_memo (tokens p ! mark p)) type of
           Some m \<Rightarrow> Some (1, Some (m_node m), p\<lparr>mark := m_mark m\<rparr>)
         | None \<Rightarrow> Some (0, None, p))
      else None)"

definition is_memoized :: "'n Parser \<Rightarrow> int \<Rightarrow> (int \<times> 'n option option \<times> 'n Parser) option" where
  "is_memoized p type =
     (if mark p = fill p then
        (case fill_token p of
           None \<Rightarrow> None
         | Some (r, p1) \<Rightarrow> if r < 0 then Some (-1, None, p1) else is_memoized_at p1 type)
      else is_memoized_at p type)"

text \<open>The three lookahead functions. The function pointer is a state transformer that
  returns a nullable result.\<close>

definition lookahead_with_string ::
  "int \<Rightarrow> ('n Parser \<Rightarrow> string \<Rightarrow> 'r option \<times> 'n Parser) \<Rightarrow> 'n Parser \<Rightarrow> string \<Rightarrow> int \<times> 'n Parser" where
  "lookahead_with_string positive func p arg =
     (let mark' = mark p;
          (res, p1) = func p arg;
          p2 = p1\<lparr>mark := mark'\<rparr>
      in (if (if res \<noteq> None then 1 else 0) = positive then 1 else 0, p2))"

definition lookahead_with_int ::
  "int \<Rightarrow> ('n Parser \<Rightarrow> int \<Rightarrow> 'r option \<times> 'n Parser) \<Rightarrow> 'n Parser \<Rightarrow> int \<Rightarrow> int \<times> 'n Parser" where
  "lookahead_with_int positive func p arg =
     (let mark' = mark p;
          (res, p1) = func p arg;
          p2 = p1\<lparr>mark := mark'\<rparr>
      in (if (if res \<noteq> None then 1 else 0) = positive then 1 else 0, p2))"

definition lookahead ::
  "int \<Rightarrow> ('n Parser \<Rightarrow> 'r option \<times> 'n Parser) \<Rightarrow> 'n Parser \<Rightarrow> int \<times> 'n Parser" where
  "lookahead positive func p =
     (let mark' = mark p;
          (res, p1) = func p;
          p2 = p1\<lparr>mark := mark'\<rparr>
      in (if (if res \<noteq> None then 1 else 0) = positive then 1 else 0, p2))"

text \<open>\<^verbatim>\<open>expect_token\<close>.\<close>

definition expect_token_at :: "'n Parser \<Rightarrow> int \<Rightarrow> ('n Token option \<times> 'n Parser) option" where
  "expect_token_at p type =
     (if mark p < length (tokens p) then
        let t = tokens p ! mark p in
        if t_type t \<noteq> type then Some (None, p)
        else Some (Some t, p\<lparr>mark := mark p + 1\<rparr>)
      else None)"

definition expect_token :: "'n Parser \<Rightarrow> int \<Rightarrow> ('n Token option \<times> 'n Parser) option" where
  "expect_token p type =
     (if mark p = fill p then
        (case fill_token p of
           None \<Rightarrow> None
         | Some (r, p1) \<Rightarrow> if r < 0 then Some (None, p1) else expect_token_at p1 type)
      else expect_token_at p type)"

subsection \<open>Parser states reached by memo operations\<close>


text \<open>A parser over a lexer that answers the name \<^verbatim>\<open>x\<close> for ever, after its first
  token has been read and consumed; the same parser after one and after two calls of
  \<^verbatim>\<open>insert_memo\<close> at token 0 for rule 5; and after \<^verbatim>\<open>insert_memo\<close> for rule 5 and
  \<^verbatim>\<open>update_memo\<close> for rules 5 and 7, with the cursor at 0 for the updates.\<close>

definition example_lexeme :: lexeme where
  "example_lexeme = \<lparr>lx_type = NAME, lx_start = Some 0, lx_end = Some 1, lx_text = ''x'',
                      lx_lineno = 1, lx_first_lineno = 1, lx_line_start = 0, lx_multi_line_start = 0\<rparr>"

definition example_parser :: "nat Parser" where
  "example_parser =
     \<lparr>tok = \<lparr>tok_answers = (\<lambda>_. example_lexeme), tok_calls = 1\<rparr>,
      tokens = [\<lparr>t_type = NAME, t_bytes = ''x'', t_lineno = 1, t_col_offset = 0,
                 t_end_lineno = 1, t_end_col_offset = 1, t_memo = []\<rparr>],
      mark = 1, fill = 1, p_size = 1, arena = 8,
      keywords_tab = (\<lambda>_. None), n_keyword_lists = 0, err = None\<rparr>"

definition once_inserted :: "nat Parser" where
  "once_inserted = example_parser\<lparr>arena := 7,
       tokens := [\<lparr>t_type = NAME, t_bytes = ''x'', t_lineno = 1, t_col_offset = 0,
                 t_end_lineno = 1, t_end_col_offset = 1,
                 t_memo = [\<lparr>m_type = 5, m_node = Some 42, m_mark = 1\<rparr>]\<rparr>]\<rparr>"



section \<open>AST helpers (pegen.c, lines 846-962 and 2585-2654)\<close>

text \<open>
  AST nodes are collaborator types (\<^verbatim>\<open>Python-ast.h\<close>). A node is a value; a pointer to a
  node is an \<open>option\<close>, \<open>None\<close> for null. An \<^verbatim>\<open>asdl_seq *\<close> is an optional list of
  node pointers. The constructors \<^verbatim>\<open>_Py_Name\<close>, \<^verbatim>\<open>_Py_Tuple\<close>, ... are taken on the
  path where they return the node they were asked for. \<^verbatim>\<open>EXTRA_EXPR(e, e)\<close> passes the
  four position fields of \<open>e\<close> on: the \<open>location\<close> of a node.
\<close>

datatype expr_context = Load | Store | Del

record location =
  lineno :: int
  col_offset :: int
  end_lineno :: int
  end_col_offset :: int

text \<open>A \<^verbatim>\<open>PyObject *\<close> that the string functions produce: a text string (its code
  points), a byte string, or some other object.\<close>

datatype pyobject = PyUnicode "nat list" | PyBytes string | PyOther nat

type_synonym py_identifier = string
type_synonym slice = nat

datatype expr =
    Name py_identifier expr_context location
  | Tuple "expr option list option" expr_context location
  | List "expr option list option" expr_context location
  | Subscript "expr option" slice expr_context location
  | Attribute "expr option" py_identifier expr_context location
  | Starred "expr option" expr_context location
  | Constant pyobject "py_identifier option" location
  | JoinedStr "expr option list option" location
  | FormattedValue "expr option" int "expr option" location
  | OtherExpr nat location

datatype stmt = Expr "expr option" | OtherStmt nat

datatype py_mod = Module "stmt list option" | OtherMod nat

text \<open>\<^verbatim>\<open>set_expr_context\<close> with the helpers it dispatches to. \<^verbatim>\<open>_set_seq_context\<close> is
  \<open>set_seq_context\<close>, its loop over the elements is \<open>set_seq_elements\<close>; the equations
  for names, tuples, lists, subscripts, attributes and starred expressions are
  \<^verbatim>\<open>_set_name_context\<close>, \<^verbatim>\<open>_set_tuple_context\<close>, \<^verbatim>\<open>_set_list_context\<close>,
  \<^verbatim>\<open>_set_subscript_context\<close>, \<^verbatim>\<open>_set_attribute_context\<close> and
  \<^verbatim>\<open>_set_starred_context\<close>; the last equation is the \<^verbatim>\<open>default\<close> of the switch.\<close>

fun set_expr_context :: "expr option \<Rightarrow> expr_context \<Rightarrow> expr option"
and set_seq_context :: "expr option list option \<Rightarrow> expr_context \<Rightarrow> expr option list option"
and set_seq_elements :: "expr option list \<Rightarrow> expr_context \<Rightarrow> expr option list"
where
  "set_expr_context None ctx = None"
| "set_expr_context (Some (Name ident c l)) ctx = Some (Name ident ctx l)"
| "set_expr_context (Some (Tuple elts c l)) ctx = Some (Tuple (set_seq_context elts ctx) ctx l)"
| "set_expr_context (Some (List elts c l)) ctx = Some (List (set_seq_context elts ctx) ctx l)"
| "set_expr_context (Some (Subscript v sl c l)) ctx = Some (Subscript v sl ctx l)"
| "set_expr_context (Some (Attribute v attr c l)) ctx = Some (Attribute v attr ctx l)"
| "set_expr_context (Some (Starred v c l)) ctx = Some (Starred (set_expr_context v ctx) ctx l)"
| "set_expr_context (Some e) ctx = Some e"
| "set_seq_context None ctx = None"
| "set_seq_context (Some seq) ctx = Some (set_seq_elements seq ctx)"
| "set_seq_elements [] ctx = []"
| "set_seq_elements (e # es) ctx = set_expr_context e ctx # set_seq_elements es ctx"

text \<open>\<^verbatim>\<open>asdl_seq_LEN\<close> of a null sequence is 0; \<^verbatim>\<open>asdl_seq_GET\<close> outside the sequence is
  an out-of-range read (\<open>None\<close>).\<close>

definition asdl_seq_LEN :: "'a list option \<Rightarrow> nat" where
  "asdl_seq_LEN seq = (case seq of None \<Rightarrow> 0 | Some xs \<Rightarrow> length xs)"

definition asdl_seq_GET :: "'a list option \<Rightarrow> int \<Rightarrow> 'a option" where
  "asdl_seq_GET seq i =
     (case seq of
        None \<Rightarrow> None
      | Some xs \<Rightarrow> if 0 \<le> i \<and> nat i < length xs then Some (xs ! nat i) else None)"

text \<open>\<^verbatim>\<open>concatenate_strings\<close>. The function reads the first and the last element and
  returns the first; the statements after \<^verbatim>\<open>return first;\<close> are never executed and have
  no counterpart here. The assertion \<^verbatim>\<open>len > 0\<close> is not compiled in release builds.\<close>

definition concatenate_strings ::
  "'n Parser \<Rightarrow> expr option list option \<Rightarrow> (expr option \<times> 'n Parser) option" where
  "concatenate_strings p strings =
     (let len = int (asdl_seq_LEN strings) in
      case asdl_seq_GET strings 0 of
        None \<Rightarrow> None
      | Some first \<Rightarrow>
          (case asdl_seq_GET strings (len - 1) of
             None \<Rightarrow> None
           | Some last_elt \<Rightarrow> Some (first, p)))"

definition example_loc :: location where
  "example_loc = \<lparr>lineno = 1, col_offset = 0, end_lineno = 1, end_col_offset = 3\<rparr>"

section \<open>String literal decoder (pegen.c, lines 1377-1616)\<close>

text \<open>
  A C string is the list of its bytes up to the terminating NUL; reading at the
  position of the terminator gives NUL. The functions of the interpreter that the
  decoder calls are collaborators, gathered in a record: the UTF-8 decoder, the two
  escape decoders (each returns the decoded value and the first invalid escape
  character it met, if any), the warning machinery, the lexer's constructor, and the
  constant \<^verbatim>\<open>MAXLEVEL\<close> of the lexer's header. The record also carries the start
  rule of the grammar, the function that \<^verbatim>\<open>p->start_rule_func\<close> points to (a record
  cannot hold a function on itself), and \<open>undeclared_expr\<close>, the value of the identifier
  \<^verbatim>\<open>expr\<close> that \<^verbatim>\<open>fstring_compile_expr\<close> reads at line 1776 and that no declaration
  of the file introduces.
\<close>

datatype warn_outcome = WarnIssued | WarnRaisedDeprecation | WarnRaisedOther

record 'n collab =
  start_rule_func :: "'n Parser \<Rightarrow> py_mod option \<times> 'n Parser"
  undeclared_expr :: "expr option"
  PyUnicode_DecodeUTF8 :: "string \<Rightarrow> nat list option"
  PyUnicode_DecodeUnicodeEscape :: "string \<Rightarrow> (nat list \<times> char option) option"
  PyBytes_DecodeEscape :: "string \<Rightarrow> (string \<times> char option) option"
  PyErr_WarnExplicitObject :: "char \<Rightarrow> warn_outcome"
  PyTokenizer_FromString :: "string \<Rightarrow> tok_state option"
  MAXLEVEL :: nat

definition c_str :: "string \<Rightarrow> string" where
  "c_str s = takeWhile (\<lambda>c. c \<noteq> CHR 0x00) s"

definition char_at :: "string \<Rightarrow> nat \<Rightarrow> char" where
  "char_at s i = (if i < length s then s ! i else CHR 0x00)"

definition high_bit :: "char \<Rightarrow> bool" where
  "high_bit c \<longleftrightarrow> (128::nat) \<le> of_char c"

text \<open>Modelled from the spec: prefix letters are ASCII letters and the white space
  behind a debug \<^verbatim>\<open>=\<close> is ASCII white space. The macros are those of \<^verbatim>\<open>pyctype.h\<close>,
  which is not part of the sources: letters; space, tab, newline, vertical tab, form
  feed and carriage return. \<^verbatim>\<open>INT_MAX\<close> and \<^verbatim>\<open>SIZE_MAX\<close> are the limits of a platform
  with 32-bit \<^verbatim>\<open>int\<close> and 64-bit \<^verbatim>\<open>size_t\<close>.\<close>

definition Py_ISALPHA :: "char \<Rightarrow> bool" where
  "Py_ISALPHA c \<longleftrightarrow> (let n = of_char c :: nat in (65 \<le> n \<and> n \<le> 90) \<or> (97 \<le> n \<and> n \<le> 122))"

definition Py_ISSPACE :: "char \<Rightarrow> bool" where
  "Py_ISSPACE c \<longleftrightarrow> (let n = of_char c :: nat in n = 32 \<or> (9 \<le> n \<and> n \<le> 13))"

definition INT_MAX :: int where "INT_MAX = 2147483647"
definition SIZE_MAX :: nat where "SIZE_MAX = 18446744073709551615"

text \<open>\<^verbatim>\<open>raise_syntax_error\<close> sets a SyntaxError with the formatted message; the
  file name, line, column and source line it attaches come from collaborators and are
  left out.\<close>

definition raise_syntax_error :: "'n Parser \<Rightarrow> string \<Rightarrow> 'n Parser" where
  "raise_syntax_error p errmsg = p\<lparr>err := Some (SyntaxError errmsg)\<rparr>"

definition warn_invalid_escape_sequence :: "'n collab \<Rightarrow> 'n Parser \<Rightarrow> char \<Rightarrow> int \<times> 'n Parser" where
  "warn_invalid_escape_sequence env p first_invalid_escape_char =
     (case PyErr_WarnExplicitObject env first_invalid_escape_char of
        WarnIssued \<Rightarrow> (0, p)
      | WarnRaisedDeprecation \<Rightarrow>
          (-1, raise_syntax_error p
                 (''invalid escape sequence '' @ [CHR 0x5C, first_invalid_escape_char]))
      | WarnRaisedOther \<Rightarrow> (-1, p\<lparr>err := Some CollaboratorError\<rparr>))"

text \<open>\<^verbatim>\<open>sprintf(p, "\\U%08x", chr)\<close>: a backslash, \<^verbatim>\<open>U\<close> and eight hexadecimal digits.\<close>

definition hex_digit :: "nat \<Rightarrow> char" where
  "hex_digit d = (if d < 10 then char_of (48 + d) else char_of (87 + d))"

definition sprintf_U08x :: "nat \<Rightarrow> string" where
  "sprintf_U08x chr =
     [CHR 0x5C, CHR ''U''] @ map (\<lambda>i. hex_digit ((chr div 16 ^ i) mod 16)) [7, 6, 5, 4, 3, 2, 1, 0]"

text \<open>The first loop of \<^verbatim>\<open>decode_unicode_with_escapes\<close>: the bytes are copied, a
  backslash at the end or in front of a non-ASCII byte is followed by \<^verbatim>\<open>u005c\<close>, and
  every run of non-ASCII bytes (\<^verbatim>\<open>decode_utf8\<close>) is decoded and written as
  \<^verbatim>\<open>\\U\<close> escapes. \<open>None\<close> when the UTF-8 decoder fails.\<close>

function escape_non_ascii :: "'n collab \<Rightarrow> string \<Rightarrow> string option" where
  "escape_non_ascii env [] = Some []"
| "escape_non_ascii env (c # cs) =
     (if c = CHR 0x5C then
        (case cs of
           [] \<Rightarrow> Some (CHR 0x5C # ''u005c'')
         | d # ds \<Rightarrow>
             if high_bit d then
               (case PyUnicode_DecodeUTF8 env (takeWhile high_bit cs) of
                  None \<Rightarrow> None
                | Some w \<Rightarrow>
                    map_option (\<lambda>r. CHR 0x5C # ''u005c'' @ concat (map sprintf_U08x w) @ r)
                      (escape_non_ascii env (dropWhile high_bit cs)))
             else map_option (\<lambda>r. CHR 0x5C # d # r) (escape_non_ascii env ds))
      else if high_bit c then
        (case PyUnicode_DecodeUTF8 env (takeWhile high_bit (c # cs)) of
           None \<Rightarrow> None
         | Some w \<Rightarrow>
             map_option (\<lambda>r. concat (map sprintf_U08x w) @ r)
               (escape_non_ascii env (dropWhile high_bit cs)))
      else map_option (\<lambda>r. c # r) (escape_non_ascii env cs))"
  by pat_completeness auto
termination
  by (relation "measure (\<lambda>(env, s). length s)")
     (auto simp: length_dropWhile_le less_Suc_eq_le le_SucI)

definition decode_unicode_with_escapes ::
  "'n collab \<Rightarrow> 'n Parser \<Rightarrow> string \<Rightarrow> nat list option \<times> 'n Parser" where
  "decode_unicode_with_escapes env parser s =
     (if length s > SIZE_MAX div 6 then (None, parser)
      else case escape_non_ascii env s of
             None \<Rightarrow> (None, parser\<lparr>err := Some CollaboratorError\<rparr>)
           | Some buf \<Rightarrow>
               (case PyUnicode_DecodeUnicodeEscape env buf of
                  None \<Rightarrow> (None, parser\<lparr>err := Some CollaboratorError\<rparr>)
                | Some (v, None) \<Rightarrow> (Some v, parser)
                | Some (v, Some first_invalid_escape) \<Rightarrow>
                    (case warn_invalid_escape_sequence env parser first_invalid_escape of
                       (r, parser') \<Rightarrow> if r < 0 then (None, parser') else (Some v, parser'))))"

definition decode_bytes_with_escapes ::
  "'n collab \<Rightarrow> 'n Parser \<Rightarrow> string \<Rightarrow> string option \<times> 'n Parser" where
  "decode_bytes_with_escapes env p s =
     (case PyBytes_DecodeEscape env s of
        None \<Rightarrow> (None, p\<lparr>err := Some CollaboratorError\<rparr>)
      | Some (result, None) \<Rightarrow> (Some result, p)
      | Some (result, Some first_invalid_escape) \<Rightarrow>
          (case warn_invalid_escape_sequence env p first_invalid_escape of
             (r, p') \<Rightarrow> if r < 0 then (None, p') else (Some result, p')))"

text \<open>\<^verbatim>\<open>parsestr\<close>. The prefix loop runs while one of \<^verbatim>\<open>*bytesmode\<close> and \<^verbatim>\<open>*rawmode\<close> is
  still 0; it returns the rest of the string and the three flags.\<close>

primrec prefix_loop :: "string \<Rightarrow> bool \<Rightarrow> bool \<Rightarrow> bool \<Rightarrow> string \<times> bool \<times> bool \<times> bool" where
  "prefix_loop [] bytesmode rawmode fmode = ([], bytesmode, rawmode, fmode)"
| "prefix_loop (quote # s) bytesmode rawmode fmode =
     (if \<not> bytesmode \<or> \<not> rawmode then
        if quote = CHR ''b'' \<or> quote = CHR ''B'' then prefix_loop s True rawmode fmode
        else if quote = CHR ''u'' \<or> quote = CHR ''U'' then prefix_loop s bytesmode rawmode fmode
        else if quote = CHR ''r'' \<or> quote = CHR ''R'' then prefix_loop s bytesmode True fmode
        else if quote = CHR ''f'' \<or> quote = CHR ''F'' then prefix_loop s bytesmode rawmode True
        else (quote # s, bytesmode, rawmode, fmode)
      else (quote # s, bytesmode, rawmode, fmode))"

text \<open>The test for a triple-quoted string and the check of its two further closing
  quotes: the body and its length, or \<open>None\<close> for the internal error.\<close>

definition strip_triple :: "string \<Rightarrow> nat \<Rightarrow> char \<Rightarrow> (string \<times> nat) option" where
  "strip_triple s len quote =
     (if len \<ge> 4 \<and> s ! 0 = quote \<and> s ! 1 = quote then
        let s' = drop 2 s; len1 = len - 2; len2 = len1 - 1 in
        if s' ! len2 \<noteq> quote then None
        else let len3 = len2 - 1 in
             if s' ! len3 \<noteq> quote then None else Some (s', len3)
      else Some (s, len))"

record parsestr_out =
  ps_rc :: int
  ps_bytesmode :: bool
  ps_rawmode :: bool
  ps_result :: "pyobject option"
  ps_fstr :: "string option"
  ps_fstrlen :: int

text \<open>The second half of \<^verbatim>\<open>parsestr\<close>, after the quotes have been stripped: \<open>s\<close> is the
  rest of the string from the body on (closing quotes included) and \<open>len\<close> the length
  of the body.\<close>

definition parsestr_body ::
  "'n collab \<Rightarrow> 'n Parser \<Rightarrow> string \<Rightarrow> nat \<Rightarrow> bool \<Rightarrow> bool \<Rightarrow> bool \<Rightarrow> parsestr_out \<times> 'n Parser" where
  "parsestr_body env p s len bytesmode rawmode0 fmode =
     (if fmode then
        (\<lparr>ps_rc = 0, ps_bytesmode = bytesmode, ps_rawmode = rawmode0, ps_result = None,
          ps_fstr = Some s, ps_fstrlen = int len\<rparr>, p)
      else
        let rawmode = (rawmode0 \<or> CHR 0x5C \<notin> set s);
            out = \<lparr>ps_rc = -1, ps_bytesmode = bytesmode, ps_rawmode = rawmode, ps_result = None,
                   ps_fstr = None, ps_fstrlen = -1\<rparr>
        in if bytesmode then
             if list_ex high_bit s then
               (out, raise_syntax_error p ''bytes can only contain ASCII literal characters.'')
             else if rawmode then
               (out\<lparr>ps_rc := 0, ps_result := Some (PyBytes (take len s))\<rparr>, p)
             else
               (case decode_bytes_with_escapes env p (take len s) of
                  (None, p') \<Rightarrow> (out, p')
                | (Some r, p') \<Rightarrow> (out\<lparr>ps_rc := 0, ps_result := Some (PyBytes r)\<rparr>, p'))
           else if rawmode then
             (case PyUnicode_DecodeUTF8 env (take len s) of
                None \<Rightarrow> (out, p\<lparr>err := Some CollaboratorError\<rparr>)
              | Some u \<Rightarrow> (out\<lparr>ps_rc := 0, ps_result := Some (PyUnicode u)\<rparr>, p))
           else
             (case decode_unicode_with_escapes env p (take len s) of
                (None, p') \<Rightarrow> (out, p')
              | (Some u, p') \<Rightarrow> (out\<lparr>ps_rc := 0, ps_result := Some (PyUnicode u)\<rparr>, p')))"

text \<open>\<^verbatim>\<open>parsestr\<close>. \<open>None\<close> is the read \<^verbatim>\<open>s[--len]\<close> with \<^verbatim>\<open>len = 0\<close>, which is outside
  the string.\<close>

definition parsestr :: "'n collab \<Rightarrow> 'n Parser \<Rightarrow> string \<Rightarrow> (parsestr_out \<times> 'n Parser) option" where
  "parsestr env p the_str =
     (let s0 = c_str the_str;
          (s1, bytesmode, rawmode, fmode) =
             (if Py_ISALPHA (char_at s0 0) then prefix_loop s0 False False False
              else (s0, False, False, False));
          quote = char_at s1 0;
          fail = (\<lambda>e. Some (\<lparr>ps_rc = -1, ps_bytesmode = bytesmode, ps_rawmode = rawmode,
                               ps_result = None, ps_fstr = None, ps_fstrlen = -1\<rparr>,
                             p\<lparr>err := Some e\<rparr>))
      in if fmode \<and> bytesmode then fail SystemError
         else if quote \<noteq> CHR 0x27 \<and> quote \<noteq> CHR 0x22 then fail SystemError
         else
           let s = tl s1; len = length s in
           if int len > INT_MAX then fail (OverflowError ''string to parse is too long'')
           else if len = 0 then None
           else
             let len = len - 1 in
             if s ! len \<noteq> quote then fail SystemError
             else (case strip_triple s len quote of
                     None \<Rightarrow> fail SystemError
                   | Some (s', len') \<Rightarrow>
                       Some (parsestr_body env p s' len' bytesmode rawmode fmode)))"

subsection \<open>Bytes literals and an instance of the collaborators\<close>

text \<open>The prefixes of a bytes literal, each with whether it has the raw flag, and the
  message of the error for a non-ASCII byte.\<close>

definition bytes_prefixes :: "(string \<times> bool) list" where
  "bytes_prefixes =
     [(''b'', False), (''B'', False),
      (''br'', True), (''bR'', True), (''Br'', True), (''BR'', True),
      (''rb'', True), (''rB'', True), (''Rb'', True), (''RB'', True)]"

definition bytes_non_ascii_msg :: string where
  "bytes_non_ascii_msg = ''bytes can only contain ASCII literal characters.''"

text \<open>Collaborators for the examples: decoders that accept ASCII text without
  backslashes and return it as it is, a warning machinery that only warns, a lexer
  that answers the name \<^verbatim>\<open>x\<close> for ever, and a start rule that returns the module
  of the one expression statement \<^verbatim>\<open>x\<close>.\<close>

definition example_collab :: "nat collab" where
  "example_collab =
     \<lparr>start_rule_func = (\<lambda>p. (Some (Module (Some [Expr (Some (Name ''x'' Load example_loc))])), p)),
      undeclared_expr = None,
      PyUnicode_DecodeUTF8 = (\<lambda>s. if list_ex high_bit s then None else Some (map of_char s)),
      PyUnicode_DecodeUnicodeEscape =
        (\<lambda>s. if list_ex high_bit s \<or> CHR 0x5C \<in> set s then None else Some (map of_char s, None)),
      PyBytes_DecodeEscape = (\<lambda>s. if CHR 0x5C \<in> set s then None else Some (s, None)),
      PyErr_WarnExplicitObject = (\<lambda>_. WarnIssued),
      PyTokenizer_FromString = (\<lambda>s. Some \<lparr>tok_answers = (\<lambda>_. example_lexeme), tok_calls = 0\<rparr>),
      MAXLEVEL = 200\<rparr>"

section \<open>F-string sub-parser (pegen.c, lines 1678-2583 and 2656-2719)\<close>

text \<open>
  The f-string functions walk a buffer with the pointer \<^verbatim>\<open>*str\<close> up to the pointer
  \<^verbatim>\<open>end\<close>. The buffer \<open>buf\<close> is the C string that starts at the first byte of the
  body (the closing quotes follow the body), and the two pointers are offsets into it.
  A function that writes \<^verbatim>\<open>*str\<close> returns the new offset.
\<close>

definition bytes_between :: "string \<Rightarrow> nat \<Rightarrow> nat \<Rightarrow> string" where
  "bytes_between buf a b = take (b - a) (drop a buf)"

definition token_location :: "'n Token \<Rightarrow> location" where
  "token_location t = \<lparr>lineno = t_lineno t, col_offset = t_col_offset t,
                        end_lineno = t_end_lineno t, end_col_offset = t_end_col_offset t\<rparr>"

subsection \<open>\<^verbatim>\<open>fstring_compile_expr\<close>\<close>

text \<open>
  The body between the braces is wrapped in parentheses and given to a new parser that
  shares the arena and the keyword table. \<open>None\<close> stands for the two places where the
  C code has no defined result: the jump to \<^verbatim>\<open>exit\<close> after a failed \<^verbatim>\<open>fill_token\<close>,
  where \<^verbatim>\<open>mod\<close> is read before it has been assigned, and the final
  \<^verbatim>\<open>return expr->v.Subscript.value\<close> when \<^verbatim>\<open>expr\<close> is null or not a subscript node.
  After the error for a module that has not exactly one statement the function does not
  return; it goes on to the same last line.
\<close>

definition fstring_compile_expr ::
  "'n collab \<Rightarrow> 'n Parser \<Rightarrow> string \<Rightarrow> (expr option \<times> 'n Parser) option" where
  "fstring_compile_expr env p body =
     (if list_all (\<lambda>c. c = CHR '' '' \<or> c = CHR 0x09 \<or> c = CHR 0x0A \<or> c = CHR 0x0C) body then
        Some (None, raise_syntax_error p ''f-string: empty expression not allowed'')
      else
        let str = CHR ''('' # body @ [CHR '')''] in
        case PyTokenizer_FromString env str of
          None \<Rightarrow> Some (None, p\<lparr>err := Some CollaboratorError\<rparr>)
        | Some tk \<Rightarrow>
            let p2 = \<lparr>tok = tk, tokens = [zero_Token], mark = 0, fill = 0, p_size = 1,
                      arena = arena p, keywords_tab = keywords_tab p,
                      n_keyword_lists = n_keyword_lists p, err = err p\<rparr>
            in case fill_token p2 of
                 None \<Rightarrow> None
               | Some (r, p2a) \<Rightarrow>
                   if r < 0 then None
                   else
                     (case start_rule_func env (p2a\<lparr>err := None\<rparr>) of
                        (None, p2b) \<Rightarrow> Some (None, p\<lparr>arena := arena p2b, err := err p2b\<rparr>)
                      | (Some (OtherMod k), p2b) \<Rightarrow> None
                      | (Some (Module body'), p2b) \<Rightarrow>
                          let p3 = p\<lparr>arena := arena p2b, err := err p2b\<rparr>;
                              p4 = (if asdl_seq_LEN body' \<noteq> 1
                                    then raise_syntax_error p3 ''f-string: invalid expression''
                                    else p3)
                          in (case undeclared_expr env of
                                Some (Subscript v sl c l) \<Rightarrow> Some (v, p4)
                              | _ \<Rightarrow> None)))"

subsection \<open>\<^verbatim>\<open>fstring_find_literal\<close>\<close>

text \<open>The inner loop that skips a \<^verbatim>\<open>\\N{...}\<close> name: up to and including the first
  closing brace, or to the end.\<close>

function skip_unicode_name :: "string \<Rightarrow> nat \<Rightarrow> nat \<Rightarrow> nat" where
  "skip_unicode_name buf end' s =
     (if s < end' then
        if char_at buf s \<noteq> CHR ''}'' then skip_unicode_name buf end' (s + 1) else s + 1
      else s)"
  by pat_completeness auto
termination
  by (relation "measure (\<lambda>(buf, end', s). end' - s)") auto

declare skip_unicode_name.simps [simp del]

text \<open>The outcome of the scanning loop: the error return (with the value assigned to
  \<^verbatim>\<open>*str\<close>, if one was), or the position \<open>s\<close> where the literal ends, the new
  \<^verbatim>\<open>*str\<close> and the result, 1 after a doubled brace. One iteration of the loop either
  goes round again or leaves the loop.\<close>

datatype 'n lit_scan = LitError "nat option" "'n Parser" | LitEnd nat nat int "'n Parser"

datatype 'n lit_step = Again nat "'n Parser" | Leave "'n lit_scan"

definition find_literal_braces :: "string \<Rightarrow> nat \<Rightarrow> int \<Rightarrow> char \<Rightarrow> nat \<Rightarrow> 'n Parser \<Rightarrow> 'n lit_step" where
  "find_literal_braces buf end' recurse_lvl ch s p =
     (if ch = CHR ''{'' \<or> ch = CHR ''}'' then
        if recurse_lvl = 0 then
          if s < end' \<and> char_at buf s = ch then Leave (LitEnd s (s + 1) 1 p)
          else if ch = CHR ''}'' then
            Leave (LitError (Some (s - 1))
                     (raise_syntax_error p (''f-string: single '' @ [CHR 0x27, CHR ''}'', CHR 0x27]
                                            @ '' is not allowed'')))
          else Leave (LitEnd (s - 1) (s - 1) 0 p)
        else Leave (LitEnd (s - 1) (s - 1) 0 p)
      else Again s p)"

definition find_literal_step ::
  "'n collab \<Rightarrow> string \<Rightarrow> nat \<Rightarrow> bool \<Rightarrow> int \<Rightarrow> nat \<Rightarrow> 'n Parser \<Rightarrow> 'n lit_step" where
  "find_literal_step env buf end' raw recurse_lvl s0 p =
     (let ch = char_at buf s0; s = s0 + 1 in
      if \<not> raw \<and> ch = CHR 0x5C \<and> s < end' then
        let ch = char_at buf s; s = s + 1 in
        if ch = CHR ''N'' then
          if s < end' then
            if char_at buf s = CHR ''{'' then Again (skip_unicode_name buf end' (s + 1)) p
            else Leave (LitEnd (s + 1) (s + 1) 0 p)
          else Leave (LitEnd s s 0 p)
        else if ch = CHR ''{'' then
          (case warn_invalid_escape_sequence env p ch of
             (r, p') \<Rightarrow> if r < 0 then Leave (LitError None p')
                        else find_literal_braces buf end' recurse_lvl ch s p')
        else find_literal_braces buf end' recurse_lvl ch s p
      else find_literal_braces buf end' recurse_lvl ch s p)"

function find_literal_loop ::
  "'n collab \<Rightarrow> string \<Rightarrow> nat \<Rightarrow> bool \<Rightarrow> int \<Rightarrow> nat \<Rightarrow> 'n Parser \<Rightarrow> 'n lit_scan" where
  "find_literal_loop env buf end' raw recurse_lvl s p =
     (if s < end' then
        (case find_literal_step env buf end' raw recurse_lvl s p of
           Again s' p' \<Rightarrow> find_literal_loop env buf end' raw recurse_lvl s' p'
         | Leave r \<Rightarrow> r)
      else LitEnd s s 0 p)"
  by pat_completeness auto
termination
proof (relation "measure (\<lambda>(env, buf, end', raw, recurse_lvl, s, p). end' - s)")
  show "wf (measure (\<lambda>(env, buf, end', raw, recurse_lvl, s, p). end' - s))" by simp
next
  fix env :: "'n collab" and buf end' raw recurse_lvl s and p :: "'n Parser" and s' p'
  assume lt: "s < end'" and st: "find_literal_step env buf end' raw recurse_lvl s p = Again s' p'"
  have skip: "x \<le> skip_unicode_name buf end' x" for x
  proof (induction buf end' x rule: skip_unicode_name.induct)
    case (1 buf end' s)
    show ?case
    proof (cases "s < end' \<and> char_at buf s \<noteq> CHR ''}''")
      case True
      with 1 have "s + 1 \<le> skip_unicode_name buf end' (s + 1)" by simp
      with True show ?thesis by (subst skip_unicode_name.simps) simp
    next
      case False
      then show ?thesis by (subst skip_unicode_name.simps) auto
    qed
  qed
  have br: "find_literal_braces buf end' recurse_lvl ch x q = Again y q' \<Longrightarrow> y = x"
    for ch x y and q q' :: "'n Parser"
    by (auto simp: find_literal_braces_def split: if_splits)
  from st have "s < s'"
    using skip[of "Suc (Suc (Suc s))"]
    by (auto simp: find_literal_step_def Let_def split: if_splits prod.splits dest!: br)
  with lt show "((env, buf, end', raw, recurse_lvl, s', p'), (env, buf, end', raw, recurse_lvl, s, p))
        \<in> measure (\<lambda>(env, buf, end', raw, recurse_lvl, s, p). end' - s)"
    by simp
qed

declare find_literal_loop.simps [simp del]

text \<open>The decoding of a literal run at the label \<^verbatim>\<open>done\<close>: as UTF-8 in a raw
  f-string, with escapes otherwise.\<close>

definition decode_literal ::
  "'n collab \<Rightarrow> 'n Parser \<Rightarrow> bool \<Rightarrow> string \<Rightarrow> nat list option \<times> 'n Parser" where
  "decode_literal env p raw s =
     (if raw then
        (case PyUnicode_DecodeUTF8 env s of
           None \<Rightarrow> (None, p\<lparr>err := Some CollaboratorError\<rparr>)
         | Some u \<Rightarrow> (Some u, p))
      else decode_unicode_with_escapes env p s)"

text \<open>\<^verbatim>\<open>fstring_find_literal\<close> returns the result (-1, 0 or 1), the new \<^verbatim>\<open>*str\<close> and the
  decoded literal, if the run is not empty.\<close>

definition fstring_find_literal ::
  "'n collab \<Rightarrow> 'n Parser \<Rightarrow> string \<Rightarrow> nat \<Rightarrow> nat \<Rightarrow> bool \<Rightarrow> int
     \<Rightarrow> int \<times> nat \<times> nat list option \<times> 'n Parser" where
  "fstring_find_literal env p buf str end' raw recurse_lvl =
     (let literal_start = str in
      case find_literal_loop env buf end' raw recurse_lvl str p of
        LitError None p' \<Rightarrow> (-1, str, None, p')
      | LitError (Some str') p' \<Rightarrow> (-1, str', None, p')
      | LitEnd s str' result p' \<Rightarrow>
          if literal_start \<noteq> s then
            (case decode_literal env p' raw (bytes_between buf literal_start s) of
               (None, p'') \<Rightarrow> (-1, str', None, p'')
             | (Some u, p'') \<Rightarrow> (result, str', Some u, p''))
          else (result, str', None, p'))"

subsection \<open>\<^verbatim>\<open>fstring_find_expr\<close>: the scan for the end of the expression\<close>

text \<open>
  The state of the \<^verbatim>\<open>for\<close> loop is the position \<^verbatim>\<open>*str\<close>, \<^verbatim>\<open>quote_char\<close> (NUL outside
  a string), \<^verbatim>\<open>string_type\<close> and the stack of open brackets, whose length is
  \<^verbatim>\<open>nested_depth\<close>. One iteration reports an error, leaves the loop by \<^verbatim>\<open>break\<close>, or
  gives the state for the next iteration (the loop's increment included).
\<close>

datatype expr_step = ExprFail string | ExprBreak | ExprNext nat char int "char list"

datatype expr_scan = ScanFail string nat | ScanExit nat char "char list"

text \<open>Inside a string (lines 1944-1972): the closing quote, or the three closing
  quotes of a triple-quoted string, end it.\<close>

definition find_expr_in_string ::
  "string \<Rightarrow> nat \<Rightarrow> nat \<Rightarrow> char \<Rightarrow> char \<Rightarrow> int \<Rightarrow> char list \<Rightarrow> expr_step" where
  "find_expr_in_string buf end' str ch quote_char string_type parenstack =
     (if ch = quote_char then
        if string_type = 3 then
          if str + 2 < end' \<and> char_at buf (str + 1) = ch \<and> char_at buf (str + 2) = ch
          then ExprNext (str + 2 + 1) (CHR 0x00) 0 parenstack
          else ExprNext (str + 1) quote_char string_type parenstack
        else ExprNext (str + 1) (CHR 0x00) 0 parenstack
      else ExprNext (str + 1) quote_char string_type parenstack)"

text \<open>A quote outside a string (lines 1973-1983) opens a string.\<close>

definition find_expr_open_string ::
  "string \<Rightarrow> nat \<Rightarrow> nat \<Rightarrow> char \<Rightarrow> char list \<Rightarrow> expr_step" where
  "find_expr_open_string buf end' str ch parenstack =
     (if str + 2 < end' \<and> char_at buf (str + 1) = ch \<and> char_at buf (str + 2) = ch
      then ExprNext (str + 2 + 1) ch 3 parenstack
      else ExprNext (str + 1) ch 1 parenstack)"

text \<open>One of \<^verbatim>\<open>! : } = > <\<close> outside brackets and strings (lines 1996-2022).\<close>

definition find_expr_terminator ::
  "string \<Rightarrow> nat \<Rightarrow> nat \<Rightarrow> char \<Rightarrow> char \<Rightarrow> int \<Rightarrow> char list \<Rightarrow> expr_step" where
  "find_expr_terminator buf end' str ch quote_char string_type parenstack =
     (if str + 1 < end' then
        let next = char_at buf (str + 1) in
        if (ch = CHR ''!'' \<and> next = CHR ''='') \<or>
           (ch = CHR ''='' \<and> next = CHR ''='') \<or>
           (ch = CHR ''<'' \<and> next = CHR ''='') \<or>
           (ch = CHR ''>'' \<and> next = CHR ''='')
        then ExprNext (str + 1 + 1) quote_char string_type parenstack
        else if ch = CHR ''>'' \<or> ch = CHR ''<''
        then ExprNext (str + 1) quote_char string_type parenstack
        else ExprBreak
      else ExprBreak)"

text \<open>A closing bracket (lines 2023-2039).\<close>

definition find_expr_close_bracket ::
  "nat \<Rightarrow> char \<Rightarrow> char \<Rightarrow> int \<Rightarrow> char list \<Rightarrow> expr_step" where
  "find_expr_close_bracket str ch quote_char string_type parenstack =
     (if length parenstack = 0 then
        ExprFail (''f-string: unmatched '' @ [CHR 0x27, ch, CHR 0x27])
      else
        let opening = last parenstack in
        if \<not> ((opening = CHR ''('' \<and> ch = CHR '')'') \<or>
               (opening = CHR ''['' \<and> ch = CHR '']'') \<or>
               (opening = CHR ''{'' \<and> ch = CHR ''}''))
        then ExprFail (''f-string: closing parenthesis '' @ [CHR 0x27, ch, CHR 0x27]
                       @ '' does not match opening parenthesis '' @ [CHR 0x27, opening, CHR 0x27])
        else ExprNext (str + 1) quote_char string_type (butlast parenstack))"

definition find_expr_step ::
  "'n collab \<Rightarrow> string \<Rightarrow> nat \<Rightarrow> nat \<Rightarrow> char \<Rightarrow> int \<Rightarrow> char list \<Rightarrow> expr_step" where
  "find_expr_step env buf end' str quote_char string_type parenstack =
     (let ch = char_at buf str; nested_depth = length parenstack in
      if ch = CHR 0x5C then
        ExprFail ''f-string expression part cannot include a backslash''
      else if quote_char \<noteq> CHR 0x00 then
        find_expr_in_string buf end' str ch quote_char string_type parenstack
      else if ch = CHR 0x27 \<or> ch = CHR 0x22 then
        find_expr_open_string buf end' str ch parenstack
      else if ch = CHR ''['' \<or> ch = CHR ''{'' \<or> ch = CHR ''('' then
        if nested_depth \<ge> MAXLEVEL env then ExprFail ''f-string: too many nested parenthesis''
        else ExprNext (str + 1) quote_char string_type (parenstack @ [ch])
      else if ch = CHR ''#'' then
        ExprFail (''f-string expression part cannot include '' @ [CHR 0x27, CHR ''#'', CHR 0x27])
      else if nested_depth = 0 \<and>
              (ch = CHR ''!'' \<or> ch = CHR '':'' \<or> ch = CHR ''}'' \<or>
               ch = CHR ''='' \<or> ch = CHR ''>'' \<or> ch = CHR ''<'') then
        find_expr_terminator buf end' str ch quote_char string_type parenstack
      else if ch = CHR '']'' \<or> ch = CHR ''}'' \<or> ch = CHR '')'' then
        find_expr_close_bracket str ch quote_char string_type parenstack
      else ExprNext (str + 1) quote_char string_type parenstack)"

function find_expr_loop ::
  "'n collab \<Rightarrow> string \<Rightarrow> nat \<Rightarrow> nat \<Rightarrow> char \<Rightarrow> int \<Rightarrow> char list \<Rightarrow> expr_scan" where
  "find_expr_loop env buf end' str quote_char string_type parenstack =
     (if str < end' then
        (case find_expr_step env buf end' str quote_char string_type parenstack of
           ExprFail msg \<Rightarrow> ScanFail msg str
         | ExprBreak \<Rightarrow> ScanExit str quote_char parenstack
         | ExprNext str' quote_char' string_type' parenstack' \<Rightarrow>
             find_expr_loop env buf end' str' quote_char' string_type' parenstack')
      else ScanExit str quote_char parenstack)"
  by pat_completeness auto
termination
proof (relation "measure (\<lambda>(env, buf, end', str, q, st, ps). end' - str)")
  show "wf (measure (\<lambda>(env, buf, end', str, q, st, ps). end' - str))" by simp
next
  fix env :: "'n collab" and buf end' str quote_char string_type parenstack str' q' st' ps'
  assume lt: "str < end'"
     and st: "find_expr_step env buf end' str quote_char string_type parenstack
                = ExprNext str' q' st' ps'"
  from st have "str < str'"
    by (auto simp: find_expr_step_def find_expr_in_string_def find_expr_open_string_def
                   find_expr_terminator_def find_expr_close_bracket_def Let_def
             split: if_splits)
  with lt show "((env, buf, end', str', q', st', ps'),
                 (env, buf, end', str, quote_char, string_type, parenstack))
        \<in> measure (\<lambda>(env, buf, end', str, q, st, ps). end' - str)"
    by simp
qed

declare find_expr_loop.simps [simp del]

subsection \<open>\<^verbatim>\<open>fstring_find_expr\<close>: what follows the expression\<close>

text \<open>The loop \<^verbatim>\<open>while (Py_ISSPACE(**str)) *str += 1\<close> after the \<^verbatim>\<open>=\<close> of a debug
  expression. It has no test for the end: the terminating NUL of the buffer stops it.\<close>

function skip_space :: "string \<Rightarrow> nat \<Rightarrow> nat" where
  "skip_space buf str = (if Py_ISSPACE (char_at buf str) then skip_space buf (str + 1) else str)"
  by pat_completeness auto
termination
proof (relation "measure (\<lambda>(buf, str). length buf - str)")
  show "wf (measure (\<lambda>(buf, str). length buf - str))" by simp
next
  fix buf str
  assume "Py_ISSPACE (char_at buf str)"
  then have "str < length buf" by (auto simp: char_at_def Py_ISSPACE_def split: if_splits)
  then show "((buf, str + 1), (buf, str)) \<in> measure (\<lambda>(buf, str). length buf - str)" by simp
qed

declare skip_space.simps [simp del]

text \<open>The conversion character: the new \<^verbatim>\<open>*str\<close> and the conversion (-1 when there is
  none), or the message of the error and \<^verbatim>\<open>*str\<close> at that point.\<close>

definition expecting_close :: string where
  "expecting_close = ''f-string: expecting '' @ [CHR 0x27, CHR ''}'', CHR 0x27]"

definition find_expr_conversion :: "string \<Rightarrow> nat \<Rightarrow> nat \<Rightarrow> string \<times> nat + nat \<times> int" where
  "find_expr_conversion buf end' str =
     (if char_at buf str = CHR ''!'' then
        let str = str + 1 in
        if str \<ge> end' then Inl (expecting_close, str)
        else
          let conversion = char_at buf str; str = str + 1 in
          if \<not> (conversion = CHR ''s'' \<or> conversion = CHR ''r'' \<or> conversion = CHR ''a'')
          then Inl (''f-string: invalid conversion character: expected ''
                    @ [CHR 0x27, CHR ''s'', CHR 0x27] @ '', '' @ [CHR 0x27, CHR ''r'', CHR 0x27]
                    @ '', or '' @ [CHR 0x27, CHR ''a'', CHR 0x27], str)
          else Inr (str, int (of_char conversion))
      else Inr (str, -1))"

subsection \<open>The accumulator\<close>

text \<open>\<^verbatim>\<open>ExprList\<close> is the list of the expressions appended so far; its growing by
  doubling is taken to succeed. \<^verbatim>\<open>FstringParser\<close> is the pending literal, the list and
  the flag.\<close>

record FstringParser =
  last_str :: "nat list option"
  expr_list :: "expr option list"
  fmode :: bool

definition FstringParser_Init :: FstringParser where
  "FstringParser_Init = \<lparr>last_str = None, expr_list = [], fmode = False\<rparr>"

definition ExprList_Append :: "FstringParser \<Rightarrow> expr option \<Rightarrow> FstringParser" where
  "ExprList_Append state exp = state\<lparr>expr_list := expr_list state @ [exp]\<rparr>"

text \<open>\<^verbatim>\<open>make_str_node_and_del\<close>: a constant for the string, of kind \<^verbatim>\<open>u\<close> when the
  string's own first character is the letter u. When no kind was made and an error is
  pending (\<^verbatim>\<open>kind == NULL && PyErr_Occurred()\<close>), the function returns null. In either
  case it has set \<^verbatim>\<open>*str\<close> to null; its callers below clear \<open>last_str\<close>. The calls
  to \<^verbatim>\<open>PyArena_AddPyObject\<close>, \<^verbatim>\<open>PyUnicode_AsUTF8\<close>, \<^verbatim>\<open>new_identifier\<close> and
  \<^verbatim>\<open>Constant\<close> are taken to succeed.\<close>

definition make_str_node_and_del :: "'n Parser \<Rightarrow> nat list \<Rightarrow> 'n Token \<Rightarrow> expr option" where
  "make_str_node_and_del p s t =
     (let kind = (if s \<noteq> [] \<and> hd s = 117 then Some ''u'' else None)
      in if kind = None \<and> err p \<noteq> None then None
         else Some (Constant (PyUnicode s) kind (token_location t)))"

definition FstringParser_ConcatAndDel :: "FstringParser \<Rightarrow> nat list \<Rightarrow> int \<times> FstringParser" where
  "FstringParser_ConcatAndDel state str =
     (if length str = 0 then (0, state)
      else case last_str state of
             None \<Rightarrow> (0, state\<lparr>last_str := Some str\<rparr>)
           | Some l \<Rightarrow> (0, state\<lparr>last_str := Some (l @ str)\<rparr>))"

definition FstringParser_Finish :: "'n Parser \<Rightarrow> FstringParser \<Rightarrow> 'n Token \<Rightarrow> expr option" where
  "FstringParser_Finish p state t =
     (if \<not> fmode state then
        (case last_str state of
           None \<Rightarrow> make_str_node_and_del p [] t
         | Some s \<Rightarrow> make_str_node_and_del p s t)
      else
        case last_str state of
          None \<Rightarrow> Some (JoinedStr (Some (expr_list state)) (token_location t))
        | Some s \<Rightarrow>
            (case make_str_node_and_del p s t of
               None \<Rightarrow> None
             | Some str \<Rightarrow>
                 let state' = ExprList_Append (state\<lparr>last_str := None\<rparr>) (Some str)
                 in Some (JoinedStr (Some (expr_list state')) (token_location t))))"

subsection \<open>The recursive functions of the f-string parser\<close>

text \<open>
  \<^verbatim>\<open>FstringParser_ConcatFstring\<close> loops with \<^verbatim>\<open>while (1)\<close> and, through
  \<^verbatim>\<open>fstring_find_expr\<close> and \<^verbatim>\<open>fstring_parse\<close>, calls itself for a format
  specification. The functions take a number of loop iterations that they may still
  start; \<open>OutOfFuel\<close> is the result when that number is used up, and \<open>Undefined\<close>
  the result where the C code has no defined behaviour. In the sources the call of
  \<^verbatim>\<open>fstring_find_literal_and_expr\<close> lacks the token argument and \<^verbatim>\<open>fstring_find_expr\<close>
  uses a token \<^verbatim>\<open>t\<close> that is not among its parameters; here the token is passed on.
\<close>

datatype 'a run = Done 'a | Undefined | OutOfFuel

text \<open>The end of \<^verbatim>\<open>fstring_find_expr\<close>: the closing brace, the default conversion of a
  debug expression, and the \<^verbatim>\<open>FormattedValue\<close> node.\<close>

definition find_expr_close ::
  "'n Parser \<Rightarrow> string \<Rightarrow> nat \<Rightarrow> nat \<Rightarrow> expr \<Rightarrow> int \<Rightarrow> nat list option \<Rightarrow> expr option
     \<Rightarrow> int \<times> nat \<times> nat list option \<times> expr option \<times> 'n Parser" where
  "find_expr_close p buf end' str simple_expression conversion expr_text format_spec =
     (if str \<ge> end' \<or> char_at buf str \<noteq> CHR ''}'' then
        (-1, str, None, None, raise_syntax_error p expecting_close)
      else
        let str = str + 1;
            conversion = (if expr_text \<noteq> None \<and> format_spec = None \<and> conversion = -1
                          then int (of_char (CHR ''r'')) else conversion)
        in (0, str, expr_text,
            Some (FormattedValue (Some simple_expression) conversion format_spec
                    \<lparr>lineno = 1, col_offset = 1, end_lineno = 1, end_col_offset = 1\<rparr>),
            p))"

text \<open>\<^verbatim>\<open>fstring_find_expr\<close> up to the format specification: either the function has
  returned, or the expression, the debug text and the conversion are known and the
  format specification, if \<open>has_spec\<close>, is to be parsed from \<open>str\<close> on.\<close>

datatype 'n expr_head =
    Returned "(int \<times> nat \<times> nat list option \<times> expr option \<times> 'n Parser) run"
  | Parsed bool nat expr int "nat list option" "'n Parser"

definition find_expr_head ::
  "'n collab \<Rightarrow> 'n Parser \<Rightarrow> string \<Rightarrow> nat \<Rightarrow> nat \<Rightarrow> int \<Rightarrow> 'n expr_head" where
  "find_expr_head env p buf str0 end' recurse_lvl =
     (if recurse_lvl \<ge> 2 then
        Returned (Done (-1, str0, None, None,
              raise_syntax_error p ''f-string: expressions nested too deeply''))
      else
        let expr_start = str0 + 1 in
        case find_expr_loop env buf end' expr_start (CHR 0x00) 0 [] of
          ScanFail msg str \<Rightarrow> Returned (Done (-1, str, None, None, raise_syntax_error p msg))
        | ScanExit str quote_char parenstack \<Rightarrow>
            if quote_char \<noteq> CHR 0x00 then
              Returned (Done (-1, str, None, None,
                              raise_syntax_error p ''f-string: unterminated string''))
            else if parenstack \<noteq> [] then
              Returned (Done (-1, str, None, None,
                    raise_syntax_error p
                      (''f-string: unmatched '' @ [CHR 0x27, last parenstack, CHR 0x27])))
            else if str \<ge> end' then
              Returned (Done (-1, str, None, None, raise_syntax_error p expecting_close))
            else
              (case fstring_compile_expr env p (bytes_between buf expr_start str) of
                 None \<Rightarrow> Returned Undefined
               | Some (None, p1) \<Rightarrow> Returned (Done (-1, str, None, None, p1))
               | Some (Some simple_expression, p1) \<Rightarrow>
                   let debug = (char_at buf str = CHR ''='');
                       str1 = (if debug then skip_space buf (str + 1) else str);
                       expr_text = (if debug
                                    then PyUnicode_DecodeUTF8 env (bytes_between buf expr_start str1)
                                    else None)
                   in if debug \<and> expr_text = None then
                        Returned (Done (-1, str1, None, None, p1\<lparr>err := Some CollaboratorError\<rparr>))
                      else
                        (case find_expr_conversion buf end' str1 of
                           Inl (msg, str2) \<Rightarrow>
                             Returned (Done (-1, str2, None, None, raise_syntax_error p1 msg))
                         | Inr (str2, conversion) \<Rightarrow>
                             if str2 \<ge> end' then
                               Returned (Done (-1, str2, None, None,
                                               raise_syntax_error p1 expecting_close))
                             else if char_at buf str2 = CHR '':'' then
                               if str2 + 1 \<ge> end' then
                                 Returned (Done (-1, str2 + 1, None, None,
                                                 raise_syntax_error p1 expecting_close))
                               else Parsed True (str2 + 1) simple_expression conversion expr_text p1
                             else Parsed False str2 simple_expression conversion expr_text p1)))"

text \<open>\<^verbatim>\<open>fstring_find_literal_and_expr\<close> before the call of \<^verbatim>\<open>fstring_find_expr\<close>: the
  result of \<^verbatim>\<open>fstring_find_literal\<close> and whether an expression follows.\<close>

definition find_literal_part ::
  "'n collab \<Rightarrow> 'n Parser \<Rightarrow> string \<Rightarrow> nat \<Rightarrow> nat \<Rightarrow> bool \<Rightarrow> int
     \<Rightarrow> bool \<times> int \<times> nat \<times> nat list option \<times> 'n Parser" where
  "find_literal_part env p buf str0 end' raw recurse_lvl =
     (case fstring_find_literal env p buf str0 end' raw recurse_lvl of
        (result, str, literal, p1) \<Rightarrow>
          if result < 0 then (False, -1, str, None, p1)
          else if result = 1 then (False, 1, str, literal, p1)
          else if str \<ge> end' \<or> char_at buf str = CHR ''}'' then (False, 0, str, literal, p1)
          else (True, 0, str, literal, p1))"

text \<open>One iteration of the loop of \<^verbatim>\<open>FstringParser_ConcatFstring\<close> after the call of
  \<^verbatim>\<open>fstring_find_literal_and_expr\<close>, in the parser state that call left: the
  function returns -1, leaves the loop (0), or goes round again (1), with the
  accumulator as it then is.\<close>

definition concat_iteration ::
  "'n Parser \<Rightarrow> FstringParser \<Rightarrow> 'n Token \<Rightarrow> int \<Rightarrow> nat list option \<Rightarrow> nat list option
     \<Rightarrow> expr option \<Rightarrow> int \<times> FstringParser" where
  "concat_iteration p state t result literal expr_text expression =
     (if result < 0 then (-1, state)
      else
        case (case literal of
                None \<Rightarrow> (0, state)
              | Some l \<Rightarrow> FstringParser_ConcatAndDel state l) of
          (r1, state1) \<Rightarrow>
            if r1 < 0 then (-1, state1)
            else
              (case (case expr_text of
                       None \<Rightarrow> (0, state1)
                     | Some e \<Rightarrow> FstringParser_ConcatAndDel state1 e) of
                 (r2, state2) \<Rightarrow>
                   if r2 < 0 then (-1, state2)
                   else if result = 1 then (1, state2)
                   else
                     (case expression of
                        None \<Rightarrow> (0, state2)
                      | Some e \<Rightarrow>
                          (case last_str state2 of
                             None \<Rightarrow> (1, ExprList_Append state2 (Some e))
                           | Some s \<Rightarrow>
                               (case make_str_node_and_del p s t of
                                  None \<Rightarrow> (-1, state2\<lparr>last_str := None\<rparr>)
                                | Some str \<Rightarrow>
                                    (1, ExprList_Append
                                          (ExprList_Append (state2\<lparr>last_str := None\<rparr>) (Some str))
                                          (Some e)))))))"

text \<open>The checks of \<^verbatim>\<open>FstringParser_ConcatFstring\<close> after its loop.\<close>

definition concat_end ::
  "string \<Rightarrow> nat \<Rightarrow> int \<Rightarrow> nat \<Rightarrow> 'n Parser \<Rightarrow> int \<times> 'n Parser" where
  "concat_end buf end' recurse_lvl str p =
     (if recurse_lvl = 0 \<and> int str < int end' - 1 then
        (-1, raise_syntax_error p ''f-string: unexpected end of string'')
      else if recurse_lvl \<noteq> 0 \<and> char_at buf str \<noteq> CHR ''}'' then
        (-1, raise_syntax_error p expecting_close)
      else (0, p))"

text \<open>The four functions around the loop, each with the loop it is to use as its first
  argument.\<close>

type_synonym 'n concat_loop =
  "'n collab \<Rightarrow> 'n Parser \<Rightarrow> FstringParser \<Rightarrow> string \<Rightarrow> nat \<Rightarrow> nat \<Rightarrow> bool \<Rightarrow> int
     \<Rightarrow> 'n Token \<Rightarrow> (int \<times> nat \<times> FstringParser \<times> 'n Parser) run"

definition FstringParser_ConcatFstring_with ::
  "'n concat_loop \<Rightarrow> 'n concat_loop" where
  "FstringParser_ConcatFstring_with loop env p state buf str0 end' raw recurse_lvl t =
     (case loop env p (state\<lparr>fmode := True\<rparr>) buf str0 end' raw recurse_lvl t of
        Undefined \<Rightarrow> Undefined
      | OutOfFuel \<Rightarrow> OutOfFuel
      | Done (r, str, state1, p1) \<Rightarrow>
          if r < 0 then Done (-1, str, state1, p1)
          else (case concat_end buf end' recurse_lvl str p1 of
                  (r1, p2) \<Rightarrow> Done (r1, str, state1, p2)))"

definition fstring_parse_with ::
  "'n concat_loop \<Rightarrow> 'n collab \<Rightarrow> 'n Parser \<Rightarrow> string \<Rightarrow> nat \<Rightarrow> nat \<Rightarrow> bool \<Rightarrow> int \<Rightarrow> 'n Token
     \<Rightarrow> (expr option \<times> nat \<times> 'n Parser) run" where
  "fstring_parse_with loop env p buf str0 end' raw recurse_lvl t =
     (case FstringParser_ConcatFstring_with loop env p FstringParser_Init buf str0 end' raw
             recurse_lvl t of
        Undefined \<Rightarrow> Undefined
      | OutOfFuel \<Rightarrow> OutOfFuel
      | Done (r, str, state, p1) \<Rightarrow>
          if r < 0 then Done (None, str, p1)
          else Done (FstringParser_Finish p1 state t, str, p1))"

definition fstring_find_expr_with ::
  "'n concat_loop \<Rightarrow> 'n collab \<Rightarrow> 'n Parser \<Rightarrow> string \<Rightarrow> nat \<Rightarrow> nat \<Rightarrow> bool \<Rightarrow> int \<Rightarrow> 'n Token
     \<Rightarrow> (int \<times> nat \<times> nat list option \<times> expr option \<times> 'n Parser) run" where
  "fstring_find_expr_with loop env p buf str0 end' raw recurse_lvl t =
     (case find_expr_head env p buf str0 end' recurse_lvl of
        Returned r \<Rightarrow> r
      | Parsed False str simple_expression conversion expr_text p1 \<Rightarrow>
          Done (find_expr_close p1 buf end' str simple_expression conversion expr_text None)
      | Parsed True str simple_expression conversion expr_text p1 \<Rightarrow>
          (case fstring_parse_with loop env p1 buf str end' raw (recurse_lvl + 1) t of
             Done (None, str3, p2) \<Rightarrow> Done (-1, str3, None, None, p2)
           | Done (Some format_spec, str3, p2) \<Rightarrow>
               Done (find_expr_close p2 buf end' str3 simple_expression conversion expr_text
                       (Some format_spec))
           | Undefined \<Rightarrow> Undefined
           | OutOfFuel \<Rightarrow> OutOfFuel))"

definition fstring_find_literal_and_expr_with ::
  "'n concat_loop \<Rightarrow> 'n collab \<Rightarrow> 'n Parser \<Rightarrow> string \<Rightarrow> nat \<Rightarrow> nat \<Rightarrow> bool \<Rightarrow> int \<Rightarrow> 'n Token
     \<Rightarrow> (int \<times> nat \<times> nat list option \<times> nat list option \<times> expr option \<times> 'n Parser) run" where
  "fstring_find_literal_and_expr_with loop env p buf str0 end' raw recurse_lvl t =
     (case find_literal_part env p buf str0 end' raw recurse_lvl of
        (False, result, str, literal, p1) \<Rightarrow> Done (result, str, literal, None, None, p1)
      | (True, result, str, literal, p1) \<Rightarrow>
          (case fstring_find_expr_with loop env p1 buf str end' raw recurse_lvl t of
             Done (r, str1, expr_text, expression, p2) \<Rightarrow>
               if r < 0 then Done (-1, str1, None, None, None, p2)
               else Done (0, str1, literal, expr_text, expression, p2)
           | Undefined \<Rightarrow> Undefined
           | OutOfFuel \<Rightarrow> OutOfFuel))"

text \<open>The loop \<^verbatim>\<open>while (1)\<close> of \<^verbatim>\<open>FstringParser_ConcatFstring\<close>, by recursion on the
  number of iterations that may still be started. The calls inside an iteration use
  the loop with what is left of that number.\<close>

primrec ConcatFstring_loop :: "nat \<Rightarrow> 'n concat_loop" where
  "ConcatFstring_loop 0 env p state buf str0 end' raw recurse_lvl t = OutOfFuel"
| "ConcatFstring_loop (Suc fuel) env p state buf str0 end' raw recurse_lvl t =
     (case fstring_find_literal_and_expr_with (ConcatFstring_loop fuel) env p buf str0 end' raw
             recurse_lvl t of
        Undefined \<Rightarrow> Undefined
      | OutOfFuel \<Rightarrow> OutOfFuel
      | Done (result, str, literal, expr_text, expression, p1) \<Rightarrow>
          (case concat_iteration p1 state t result literal expr_text expression of
             (again, state1) \<Rightarrow>
               if again = 1 then
                 ConcatFstring_loop fuel env p1 state1 buf str end' raw recurse_lvl t
               else Done (again, str, state1, p1)))"

definition FstringParser_ConcatFstring :: "nat \<Rightarrow> 'n concat_loop" where
  "FstringParser_ConcatFstring fuel = FstringParser_ConcatFstring_with (ConcatFstring_loop fuel)"

definition fstring_parse ::
  "nat \<Rightarrow> 'n collab \<Rightarrow> 'n Parser \<Rightarrow> string \<Rightarrow> nat \<Rightarrow> nat \<Rightarrow> bool \<Rightarrow> int \<Rightarrow> 'n Token
     \<Rightarrow> (expr option \<times> nat \<times> 'n Parser) run" where
  "fstring_parse fuel = fstring_parse_with (ConcatFstring_loop fuel)"

definition fstring_find_expr ::
  "nat \<Rightarrow> 'n collab \<Rightarrow> 'n Parser \<Rightarrow> string \<Rightarrow> nat \<Rightarrow> nat \<Rightarrow> bool \<Rightarrow> int \<Rightarrow> 'n Token
     \<Rightarrow> (int \<times> nat \<times> nat list option \<times> expr option \<times> 'n Parser) run" where
  "fstring_find_expr fuel = fstring_find_expr_with (ConcatFstring_loop fuel)"

definition fstring_find_literal_and_expr ::
  "nat \<Rightarrow> 'n collab \<Rightarrow> 'n Parser \<Rightarrow> string \<Rightarrow> nat \<Rightarrow> nat \<Rightarrow> bool \<Rightarrow> int \<Rightarrow> 'n Token
     \<Rightarrow> (int \<times> nat \<times> nat list option \<times> nat list option \<times> expr option \<times> 'n Parser) run" where
  "fstring_find_literal_and_expr fuel =
     fstring_find_literal_and_expr_with (ConcatFstring_loop fuel)"

subsection \<open>\<^verbatim>\<open>string_token\<close>\<close>

text \<open>The result of \<^verbatim>\<open>FstringParser_ConcatFstring\<close> is assigned to the local variable
  \<^verbatim>\<open>result\<close>, which is not read: whatever it is, the function returns what
  \<^verbatim>\<open>FstringParser_Finish\<close> makes of the accumulator.\<close>

definition string_token :: "nat \<Rightarrow> 'n collab \<Rightarrow> 'n Parser \<Rightarrow> (expr option \<times> 'n Parser) run" where
  "string_token fuel env p =
     (case expect_token p STRING of
        None \<Rightarrow> Undefined
      | Some (None, p1) \<Rightarrow> Done (None, p1)
      | Some (Some t, p1) \<Rightarrow>
          let the_str = t_bytes t in
          (case parsestr env p1 the_str of
             None \<Rightarrow> Undefined
           | Some (out, p2) \<Rightarrow>
               if ps_rc out \<noteq> 0 then Done (None, p2)
               else
                 let kind_unicode = (char_at the_str 0 = CHR ''u'') in
                 (case ps_fstr out of
                    Some fstr \<Rightarrow>
                      (case FstringParser_ConcatFstring fuel env p2 FstringParser_Init fstr 0
                              (nat (ps_fstrlen out)) (ps_rawmode out) 0 t of
                         Undefined \<Rightarrow> Undefined
                       | OutOfFuel \<Rightarrow> OutOfFuel
                       | Done (result, str, state, p3) \<Rightarrow>
                           Done (FstringParser_Finish p3 state t, p3))
                  | None \<Rightarrow>
                      (case ps_result out of
                         None \<Rightarrow> Undefined
                       | Some s \<Rightarrow>
                           let u_kind = (if \<not> ps_bytesmode out \<and> kind_unicode
                                         then Some ''u'' else None)
                           in Done (Some (Constant s u_kind (token_location t)), p2)))))"

subsection \<open>Characters that can end an expression\<close>

text \<open>The comparison operators of two characters that the scan steps over, the four
  characters that end the expression when they are not the start of such an operator,
  and the two angle brackets.\<close>

definition two_char_operator :: "char \<Rightarrow> char \<Rightarrow> bool" where
  "two_char_operator ch next \<longleftrightarrow>
     next = CHR ''='' \<and> (ch = CHR ''!'' \<or> ch = CHR ''='' \<or> ch = CHR ''<'' \<or> ch = CHR ''>'')"

definition terminator_char :: "char \<Rightarrow> bool" where
  "terminator_char ch \<longleftrightarrow> ch = CHR ''!'' \<or> ch = CHR '':'' \<or> ch = CHR ''}'' \<or> ch = CHR ''=''"

definition angle_char :: "char \<Rightarrow> bool" where
  "angle_char ch \<longleftrightarrow> ch = CHR ''<'' \<or> ch = CHR ''>''"

text \<open>The bodies of the f-strings \<^verbatim>\<open>f"{a<b}"\<close> and \<^verbatim>\<open>f"{a<"\<close>, each with the closing
  quote that follows it in the token.\<close>

definition angle_body :: string where
  "angle_body = [CHR ''{'', CHR ''a'', CHR ''<'', CHR ''b'', CHR ''}'', CHR 0x22]"

definition angle_last_body :: string where
  "angle_last_body = [CHR ''{'', CHR ''a'', CHR ''<'', CHR 0x22]"


subsection \<open>Literal text between doubled braces\<close>

text \<open>A run of literal text that the scan of \<^verbatim>\<open>fstring_find_literal\<close> passes over
  from its first to its last byte, whatever follows it: it has no brace outside a name
  escape; and outside a raw f-string every backslash in it starts either an escape of two
  bytes of the run, the second one neither \<^verbatim>\<open>N\<close> nor a brace, or a name escape
  \<^verbatim>\<open>\N{\<close>\<open>\<dots>\<close>\<^verbatim>\<open>}\<close> that is closed inside the run.\<close>

function literal_run :: "bool \<Rightarrow> string \<Rightarrow> bool" where
  "literal_run raw [] = True"
| "literal_run raw (c # cs) =
     (if c = CHR ''{'' \<or> c = CHR ''}'' then False
      else if \<not> raw \<and> c = CHR 0x5C then
        (case cs of
           [] \<Rightarrow> False
         | d # ds \<Rightarrow>
             if d = CHR ''N'' then
               (case ds of
                  [] \<Rightarrow> False
                | e # es \<Rightarrow>
                    e = CHR ''{'' \<and> CHR ''}'' \<in> set es
                    \<and> literal_run raw (tl (dropWhile (\<lambda>c. c \<noteq> CHR ''}'') es)))
             else d \<noteq> CHR ''{'' \<and> d \<noteq> CHR ''}'' \<and> literal_run raw ds)
      else literal_run raw cs)"
  by pat_completeness auto
termination
proof (relation "measure (\<lambda>(raw, s). length s)")
  show "wf (measure (\<lambda>(raw, s). length s))" by simp
next
  fix raw :: bool and c d e :: char and cs ds es :: string
  have "length (tl (dropWhile (\<lambda>c. c \<noteq> CHR ''}'') es)) \<le> length es"
    using length_dropWhile_le[of "\<lambda>c. c \<noteq> CHR ''}''" es] by simp
  then show "cs = d # ds \<Longrightarrow> ds = e # es \<Longrightarrow>
       ((raw, tl (dropWhile (\<lambda>c. c \<noteq> CHR ''}'') es)), (raw, c # cs)) \<in> measure (\<lambda>(raw, s). length s)"
    by simp
qed auto

text \<open>The decoders of the interpreter give the text \<open>v\<close> for the bytes \<open>s\<close> and raise
  nothing. In a raw f-string the UTF-8 decoder returns \<open>v\<close>. Otherwise \<open>s\<close> is not longer
  than a sixth of \<^verbatim>\<open>SIZE_MAX\<close>, its runs of non-ASCII bytes are accepted by the UTF-8
  decoder, and the escape decoder returns \<open>v\<close> for the buffer with these runs escaped,
  with no invalid escape or with one for which the warning machinery only warns.\<close>

definition literal_decodes :: "'n collab \<Rightarrow> bool \<Rightarrow> string \<Rightarrow> nat list \<Rightarrow> bool" where
  "literal_decodes env raw s v \<longleftrightarrow>
     (if raw then PyUnicode_DecodeUTF8 env s = Some v
      else length s \<le> SIZE_MAX div 6 \<and>
           (case escape_non_ascii env s of
              None \<Rightarrow> False
            | Some b \<Rightarrow>
                (case PyUnicode_DecodeUnicodeEscape env b of
                   None \<Rightarrow> False
                 | Some (u, None) \<Rightarrow> u = v
                 | Some (u, Some c) \<Rightarrow> u = v \<and> PyErr_WarnExplicitObject env c = WarnIssued)))"

text \<open>Literal text is a sequence of segments and a last part. A segment is a run, an
  optional backslash (outside a raw f-string; in a raw one a backslash is a byte of the
  run) and a doubled brace; the bytes that are decoded for it are the run, the backslash
  and one brace, and \<open>seg_value\<close> is the text that the decoders give for them. A
  backslash in front of a doubled \<^verbatim>\<open>{\<close> is reported as an invalid escape by the scan
  itself, and the warning machinery is to only warn.\<close>

definition esc_bytes :: "bool \<Rightarrow> string" where
  "esc_bytes esc = (if esc then [CHR 0x5C] else [])"

record segment =
  seg_run :: string
  seg_esc :: bool
  seg_brace :: char
  seg_value :: "nat list"

definition seg_piece :: "segment \<Rightarrow> string" where
  "seg_piece g = seg_run g @ esc_bytes (seg_esc g) @ [seg_brace g]"

definition seg_text :: "segment \<Rightarrow> string" where
  "seg_text g = seg_run g @ esc_bytes (seg_esc g) @ [seg_brace g, seg_brace g]"

definition seg_ok :: "'n collab \<Rightarrow> bool \<Rightarrow> segment \<Rightarrow> bool" where
  "seg_ok env raw g \<longleftrightarrow>
     literal_run raw (seg_run g)
     \<and> (seg_brace g = CHR ''{'' \<or> seg_brace g = CHR ''}'')
     \<and> (seg_esc g \<longrightarrow> \<not> raw \<and>
          (seg_brace g = CHR ''{'' \<longrightarrow> PyErr_WarnExplicitObject env (CHR ''{'') = WarnIssued))
     \<and> literal_decodes env raw (seg_piece g) (seg_value g)"

text \<open>The accumulator in f-string mode that holds the pending literal \<open>v\<close>, if it is
  not empty, and no expression.\<close>

definition literal_state :: "nat list \<Rightarrow> FstringParser" where
  "literal_state v = \<lparr>last_str = (if v = [] then None else Some v), expr_list = [], fmode = True\<rparr>"

subsection \<open>Example inputs of the f-string functions\<close>

text \<open>The token \<^verbatim>\<open>f"}"\<close> as the only token of a parser that has read it, and the
  message of the error for its lone closing brace.\<close>

definition close_brace_token :: "nat Token" where
  "close_brace_token =
     \<lparr>t_type = STRING, t_bytes = [CHR ''f'', CHR 0x22, CHR ''}'', CHR 0x22],
      t_lineno = 1, t_col_offset = 0, t_end_lineno = 1, t_end_col_offset = 4, t_memo = []\<rparr>"

definition close_brace_parser :: "nat Parser" where
  "close_brace_parser = example_parser\<lparr>tokens := [close_brace_token], mark := 0\<rparr>"

definition single_close_brace_msg :: string where
  "single_close_brace_msg =
     ''f-string: single '' @ [CHR 0x27, CHR ''}'', CHR 0x27] @ '' is not allowed''"

text \<open>The module of the one expression statement \<^verbatim>\<open>x\<close>, which the start rule of
  \<open>example_collab\<close> returns; and collaborators for which the identifier \<^verbatim>\<open>expr\<close>
  stands for a subscript node with the value \<^verbatim>\<open>y\<close>.\<close>

definition name_x_module :: py_mod where
  "name_x_module = Module (Some [Expr (Some (Name ''x'' Load example_loc))])"

definition subscript_collab :: "nat collab" where
  "subscript_collab =
     example_collab\<lparr>undeclared_expr :=
        Some (Subscript (Some (Name ''y'' Load example_loc)) 0 Load example_loc)\<rparr>"


text \<open>The body of the f-string \<^verbatim>\<open>f"{{a{{b}}"\<close> with its closing quote, and the
  segment \<^verbatim>\<open>a{{\<close> of the text \<^verbatim>\<open>a{{b\<close> between its outer braces.\<close>

definition doubled_inner_body :: string where
  "doubled_inner_body = [CHR ''{'', CHR ''{'', CHR ''a'', CHR ''{'', CHR ''{'', CHR ''b'',
                         CHR ''}'', CHR ''}'', CHR 0x22]"

definition inner_segment :: segment where
  "inner_segment = \<lparr>seg_run = ''a'', seg_esc = False, seg_brace = CHR ''{'', seg_value = [97, 123]\<rparr>"

text \<open>The token \<^verbatim>\<open>f"a{{}"\<close>, whose body has the literal \<^verbatim>\<open>a{\<close> in front of a lone
  closing brace, as the only token of a parser that has read it.\<close>

definition literal_brace_token :: "nat Token" where
  "literal_brace_token =
     \<lparr>t_type = STRING,
      t_bytes = [CHR ''f'', CHR 0x22, CHR ''a'', CHR ''{'', CHR ''{'', CHR ''}'', CHR 0x22],
      t_lineno = 1, t_col_offset = 0, t_end_lineno = 1, t_end_col_offset = 7, t_memo = []\<rparr>"

definition literal_brace_parser :: "nat Parser" where
  "literal_brace_parser = example_parser\<lparr>tokens := [literal_brace_token], mark := 0\<rparr>"

section \<open>Verified properties\<close>

subsection \<open>Memo cache\<close>

lemma example_insert:
  "insert_memo example_parser 0 5 (Some 42) = Some (0, once_inserted)"
  by (simp add: insert_memo_def PyArena_Malloc_def example_parser_def once_inserted_def Let_def)

text \<open>
  Claim C3. After a successful \<^verbatim>\<open>insert_memo\<close> at position \<open>pos\<close> for rule \<open>r\<close> with node
  \<open>n\<close>, made while the cursor stood at the end position \<open>mark p\<close>, a call of
  \<^verbatim>\<open>is_memoized\<close> for \<open>r\<close> with the cursor at \<open>pos\<close> returns 1 (hit), writes \<open>n\<close> to the
  output slot and moves the cursor to the stored end position. A position is the index
  of a token that has been read: \<open>pos < fill p\<close>.
\<close>

theorem is_memoized_after_insert_memo:
  assumes "insert_memo p pos r n = Some (0, p')" and "pos < fill p"
  shows "is_memoized (p'\<lparr>mark := pos\<rparr>) r = Some (1, Some n, p'\<lparr>mark := mark p\<rparr>)"
  using assms
  by (auto simp: insert_memo_def PyArena_Malloc_def is_memoized_def is_memoized_at_def Let_def
           split: if_splits)

theorem is_memoized_after_insert_memo_witness:
  "insert_memo example_parser 0 5 (Some 42) = Some (0, once_inserted)
   \<and> 0 < fill example_parser
   \<and> is_memoized (once_inserted\<lparr>mark := 0\<rparr>) 5
       = Some (1, Some (Some 42), once_inserted\<lparr>mark := 1\<rparr>)"
proof -
  have f: "0 < fill example_parser" by (simp add: example_parser_def)
  have m: "mark example_parser = 1" by (simp add: example_parser_def)
  show ?thesis
    using is_memoized_after_insert_memo[OF example_insert f] example_insert f m by simp
qed

text \<open>At the one slot that is allocated but not read yet (\<open>pos = fill p\<close>) the lookup
  first calls \<^verbatim>\<open>fill_token\<close>, and reports -1 when the lexer answers with an error
  token.\<close>

lemma is_memoized_unread_slot:
  assumes "mark p = fill p"
      and "lx_type (tok_answers (tok p) (tok_calls (tok p))) = ERRORTOKEN"
  shows "\<exists>p1. is_memoized p r = Some (-1, None, p1)"
  using assms
  by (simp add: is_memoized_def fill_token_def PyTokenizer_Get_def Let_def)
















subsection \<open>Lookahead\<close>

text \<open>
  Claim C5. Each of the three lookahead functions calls the parse function once on the
  state it is given, returns 1 exactly when (result is not null) equals \<open>positive\<close> as C
  compares the two integers, and leaves the state that the parse function produced with
  \<^verbatim>\<open>mark\<close> set back to its value before the call.
\<close>

theorem lookahead_contract:
  "lookahead positive f p =
     (if (if fst (f p) \<noteq> None then 1 else 0) = positive then 1 else 0,
      (snd (f p))\<lparr>mark := mark p\<rparr>)
   \<and> lookahead_with_string positive g p s =
     (if (if fst (g p s) \<noteq> None then 1 else 0) = positive then 1 else 0,
      (snd (g p s))\<lparr>mark := mark p\<rparr>)
   \<and> lookahead_with_int positive h p k =
     (if (if fst (h p k) \<noteq> None then 1 else 0) = positive then 1 else 0,
      (snd (h p k))\<lparr>mark := mark p\<rparr>)
   \<and> mark (snd (lookahead positive f p)) = mark p
   \<and> mark (snd (lookahead_with_string positive g p s)) = mark p
   \<and> mark (snd (lookahead_with_int positive h p k)) = mark p"
  by (simp add: lookahead_def lookahead_with_string_def lookahead_with_int_def Let_def
           split: prod.splits)

subsection \<open>Context rewriting\<close>

lemma set_expr_context_twice_all:
  "set_expr_context (set_expr_context e A) B = set_expr_context e B"
  "set_seq_context (set_seq_context s A) B = set_seq_context s B"
  "set_seq_elements (set_seq_elements es A) B = set_seq_elements es B"
  by (induction e A and s A and es A rule: set_expr_context_set_seq_context_set_seq_elements.induct)
     simp_all

text \<open>
  Claim C6. For every expression pointer \<open>e\<close> (null included) and all contexts \<open>A\<close> and
  \<open>B\<close>, rewriting the context to \<open>A\<close> and then to \<open>B\<close> gives the same tree as rewriting
  it to \<open>B\<close>: the context is replaced, not stacked. Names, tuples, lists, subscripts,
  attributes and starred expressions get the new context, tuples and lists element by
  element; every other node is returned as it is.
\<close>

theorem set_expr_context_replaces:
  "set_expr_context (set_expr_context e A) B = set_expr_context e B
   \<and> set_expr_context (Some (Name ident c l)) B = Some (Name ident B l)
   \<and> set_expr_context (Some (Tuple (Some es) c l)) B
       = Some (Tuple (Some (map (\<lambda>x. set_expr_context x B) es)) B l)
   \<and> set_expr_context (Some (List (Some es) c l)) B
       = Some (List (Some (map (\<lambda>x. set_expr_context x B) es)) B l)
   \<and> set_expr_context (Some (Subscript v sl c l)) B = Some (Subscript v sl B l)
   \<and> set_expr_context (Some (Attribute v attr c l)) B = Some (Attribute v attr B l)
   \<and> set_expr_context (Some (Starred v c l)) B = Some (Starred (set_expr_context v B) B l)
   \<and> set_expr_context (Some (Constant k kind l)) B = Some (Constant k kind l)
   \<and> set_expr_context (Some (JoinedStr vs l)) B = Some (JoinedStr vs l)
   \<and> set_expr_context (Some (FormattedValue v conv spec l)) B = Some (FormattedValue v conv spec l)
   \<and> set_expr_context (Some (OtherExpr n l)) B = Some (OtherExpr n l)"
proof -
  have m: "set_seq_elements xs B = map (\<lambda>x. set_expr_context x B) xs" for xs
    by (induction xs) simp_all
  show ?thesis by (simp add: set_expr_context_twice_all(1) m)
qed

theorem set_expr_context_replaces_witness:
  "set_expr_context (set_expr_context
       (Some (Tuple (Some [Some (Name ''a'' Load example_loc), Some (Starred (Some (Name ''b'' Load example_loc)) Load example_loc),
                           Some (Constant (PyOther 1) None example_loc)]) Load example_loc)) Store) Del
   = Some (Tuple (Some [Some (Name ''a'' Del example_loc), Some (Starred (Some (Name ''b'' Del example_loc)) Del example_loc),
                        Some (Constant (PyOther 1) None example_loc)]) Del example_loc)"
  using set_expr_context_replaces[of "Some (Tuple (Some [Some (Name ''a'' Load example_loc),
           Some (Starred (Some (Name ''b'' Load example_loc)) Load example_loc),
           Some (Constant (PyOther 1) None example_loc)]) Load example_loc)" Store Del]
  by simp

subsection \<open>String concatenation\<close>

text \<open>
  Claim C10. For every non-empty sequence of string expression nodes,
  \<^verbatim>\<open>concatenate_strings\<close> returns the first element as it is and leaves the parser state,
  its pending error included, as it was: nothing is concatenated, no mixing of bytes
  and text is reported and no kind is set.
\<close>

theorem concatenate_strings_returns_first:
  assumes "strings = Some (first # rest)"
  shows "concatenate_strings p strings = Some (first, p)"
  using assms
  by (cases rest rule: rev_cases)
     (simp_all add: concatenate_strings_def asdl_seq_LEN_def asdl_seq_GET_def nth_append)

theorem concatenate_strings_returns_first_witness:
  "Some [Some (Constant (PyBytes ''a'') None example_loc), Some (Constant (PyUnicode [98]) (Some ''u'') example_loc)]
     = Some (Some (Constant (PyBytes ''a'') None example_loc) # [Some (Constant (PyUnicode [98]) (Some ''u'') example_loc)])
   \<and> concatenate_strings example_parser
        (Some [Some (Constant (PyBytes ''a'') None example_loc), Some (Constant (PyUnicode [98]) (Some ''u'') example_loc)])
      = Some (Some (Constant (PyBytes ''a'') None example_loc), example_parser)"
  using concatenate_strings_returns_first[of
      "Some [Some (Constant (PyBytes ''a'') None example_loc), Some (Constant (PyUnicode [98]) (Some ''u'') example_loc)]"
      "Some (Constant (PyBytes ''a'') None example_loc)" "[Some (Constant (PyUnicode [98]) (Some ''u'') example_loc)]"
      example_parser]
  by simp

subsection \<open>String literal decoder\<close>

lemma prefix_loop_bytes:
  assumes "(pre, raw) \<in> set bytes_prefixes" and "q = CHR 0x27 \<or> q = CHR 0x22"
  shows "prefix_loop (pre @ q # rest) False False False = (q # rest, True, raw, False)"
    and "Py_ISALPHA (char_at (pre @ q # rest) 0)"
    and "CHR 0x00 \<notin> set pre"
  using assms by (auto simp: bytes_prefixes_def Py_ISALPHA_def char_at_def)

lemma c_str_id: "CHR 0x00 \<notin> set s \<Longrightarrow> c_str s = s"
  by (auto simp: c_str_def takeWhile_eq_all_conv)

lemma strip_single:
  assumes "take 2 body \<noteq> [q, q]"
  shows "strip_triple (body @ [q]) (length body) q = Some (body @ [q], length body)"
proof -
  have "\<not> (length body \<ge> 4 \<and> (body @ [q]) ! 0 = q \<and> (body @ [q]) ! 1 = q)"
  proof
    assume a: "length body \<ge> 4 \<and> (body @ [q]) ! 0 = q \<and> (body @ [q]) ! 1 = q"
    then obtain a b r where "body = a # b # r" by (cases body; cases "tl body") auto
    with a assms show False by (auto simp: nth_append)
  qed
  then show ?thesis unfolding strip_triple_def by (simp only: if_False)
qed

lemma strip_tripled:
  "strip_triple ([q, q] @ body @ [q, q, q]) (length body + 4) q = Some (body @ [q, q, q], length body)"
  by (simp add: strip_triple_def nth_append Let_def)

lemma parsestr_after_prefix:
  assumes "c_str the_str = pre @ q # rest"
      and "prefix_loop (pre @ q # rest) False False False = (q # rest, b, r, f)"
      and "Py_ISALPHA (char_at (pre @ q # rest) 0)"
      and "q = CHR 0x27 \<or> q = CHR 0x22"
      and "\<not> (f \<and> b)"
      and "int (length rest) \<le> INT_MAX"
      and "rest \<noteq> []"
      and "rest ! (length rest - 1) = q"
      and "strip_triple rest (length rest - 1) q = Some (s', len')"
  shows "parsestr env p the_str = Some (parsestr_body env p s' len' b r f)"
  using assms by (auto simp: parsestr_def Let_def char_at_def)

lemma parsestr_bytes_literal:
  assumes pre: "(pre, raw) \<in> set bytes_prefixes"
      and q: "q = CHR 0x27 \<or> q = CHR 0x22"
      and nul: "CHR 0x00 \<notin> set body"
      and len: "length body + 5 \<le> 2147483647"
      and qs: "qs = [q] \<and> take 2 body \<noteq> [q, q] \<or> qs = [q, q, q]"
  shows "parsestr env p (pre @ qs @ body @ qs) =
           Some (parsestr_body env p (body @ qs) (length body) True raw False)"
proof -
  from q have q0: "q \<noteq> CHR 0x00" by auto
  from qs obtain r where r: "qs = q # r" "CHR 0x00 \<notin> set qs"
    using q0 by auto
  let ?rest = "r @ body @ qs"
  have c: "c_str (pre @ qs @ body @ qs) = pre @ q # ?rest"
    using prefix_loop_bytes(3)[OF pre q] nul r by (simp add: c_str_id)
  have pl: "prefix_loop (pre @ q # ?rest) False False False = (q # ?rest, True, raw, False)"
    by (rule prefix_loop_bytes(1)[OF pre q])
  have al: "Py_ISALPHA (char_at (pre @ q # ?rest) 0)"
    by (rule prefix_loop_bytes(2)[OF pre q])
  have ne: "?rest \<noteq> []" using r by auto
  have lq: "?rest ! (length ?rest - 1) = q"
    using qs by (auto simp: nth_append)
  have il: "int (length ?rest) \<le> INT_MAX"
    using qs r len by (auto simp: INT_MAX_def)
  have st: "strip_triple ?rest (length ?rest - 1) q = Some (body @ qs, length body)"
    using qs
  proof
    assume a: "qs = [q] \<and> take 2 body \<noteq> [q, q]"
    then have "r = []" using r by simp
    with a strip_single[of body q] show ?thesis by simp
  next
    assume a: "qs = [q, q, q]"
    then have "r = [q, q]" using r by simp
    have "length body + 4 = Suc (Suc (Suc (Suc (length body))))" by simp
    with a \<open>r = [q, q]\<close> strip_tripled[of q body] show ?thesis by simp
  qed
  show ?thesis
    by (rule parsestr_after_prefix[OF c pl al q _ il ne lq st]) simp
qed

lemma list_ex_quotes: "q = CHR 0x27 \<or> q = CHR 0x22 \<Longrightarrow> qs = [q] \<or> qs = [q,q,q] \<Longrightarrow>
   list_ex high_bit (body @ qs) = list_ex high_bit body"
  by (auto simp: high_bit_def list_ex_iff)

lemma backslash_quotes: "q = CHR 0x27 \<or> q = CHR 0x22 \<Longrightarrow> qs = [q] \<or> qs = [q,q,q] \<Longrightarrow>
   (CHR 0x5C \<notin> set (body @ qs)) = (CHR 0x5C \<notin> set body)"
  by auto

lemma decode_bytes_with_escapes_err:
  assumes "decode_bytes_with_escapes env p s = (r, p')"
      and "err p' = Some (SyntaxError bytes_non_ascii_msg)"
  shows "err p = Some (SyntaxError bytes_non_ascii_msg)"
  using assms
  by (auto simp: decode_bytes_with_escapes_def warn_invalid_escape_sequence_def
                 raise_syntax_error_def bytes_non_ascii_msg_def
           split: option.splits prod.splits warn_outcome.splits if_splits)

lemma decode_unicode_with_escapes_err:
  assumes "decode_unicode_with_escapes env p s = (r, p')"
      and "err p' = Some (SyntaxError bytes_non_ascii_msg)"
  shows "err p = Some (SyntaxError bytes_non_ascii_msg)"
  using assms
  by (auto simp: decode_unicode_with_escapes_def warn_invalid_escape_sequence_def
                 raise_syntax_error_def bytes_non_ascii_msg_def
           split: option.splits prod.splits warn_outcome.splits if_splits)

text \<open>What the prefix loop leaves is what follows the letters it has read, which are
  prefix letters, and the bytes flag is set only by a letter \<^verbatim>\<open>b\<close> or \<^verbatim>\<open>B\<close> among
  them.\<close>

lemma prefix_loop_flag:
  "prefix_loop s b r f = (s1, b1, r1, f1) \<Longrightarrow>
   \<exists>pfx. s = pfx @ s1 \<and> set pfx \<subseteq> set ''bBuUrRfF''
         \<and> (b1 \<longrightarrow> b \<or> CHR ''b'' \<in> set pfx \<or> CHR ''B'' \<in> set pfx)"
proof (induction s arbitrary: b r f)
  case Nil
  then show ?case by simp
next
  case (Cons a s)
  show ?case
  proof (cases "prefix_loop (a # s) b r f = (a # s, b, r, f)")
    case True
    with Cons.prems show ?thesis by simp
  next
    case False
    then obtain b' r' f' where
      st: "prefix_loop (a # s) b r f = prefix_loop s b' r' f'"
          "b' \<longrightarrow> b \<or> a = CHR ''b'' \<or> a = CHR ''B''"
          "a \<in> set ''bBuUrRfF''"
      by (auto split: if_splits)
    with Cons.prems have "prefix_loop s b' r' f' = (s1, b1, r1, f1)" by simp
    from Cons.IH[OF this] obtain pfx where
      "s = pfx @ s1" "set pfx \<subseteq> set ''bBuUrRfF''"
      "b1 \<longrightarrow> b' \<or> CHR ''b'' \<in> set pfx \<or> CHR ''B'' \<in> set pfx"
      by blast
    with st(2,3) have "a # s = (a # pfx) @ s1 \<and> set (a # pfx) \<subseteq> set ''bBuUrRfF''
         \<and> (b1 \<longrightarrow> b \<or> CHR ''b'' \<in> set (a # pfx) \<or> CHR ''B'' \<in> set (a # pfx))"
      by auto
    then show ?thesis by blast
  qed
qed

lemma strip_triple_suffix:
  "strip_triple s len q = Some (s', len') \<Longrightarrow> set s' \<subseteq> set s"
  by (auto simp: strip_triple_def Let_def split: if_splits dest: in_set_dropD)

lemma parsestr_body_non_ascii:
  assumes "parsestr_body env p s len b r f = (out, p')"
      and "err p' = Some (SyntaxError bytes_non_ascii_msg)"
      and "err p \<noteq> Some (SyntaxError bytes_non_ascii_msg)"
  shows "b \<and> \<not> f \<and> ps_bytesmode out \<and> ps_rc out = -1 \<and> ps_result out = None \<and> ps_fstr out = None
         \<and> list_ex high_bit s"
proof (cases f)
  case True
  with assms show ?thesis by (simp add: parsestr_body_def)
next
  case f: False
  show ?thesis
  proof (cases b)
    case True
    show ?thesis
    proof (cases "list_ex high_bit s")
      case True
      with \<open>b\<close> f assms(1) show ?thesis by (auto simp: parsestr_body_def Let_def)
    next
      case False
      with \<open>b\<close> f assms decode_bytes_with_escapes_err[of env p "take len s" _ p']
      show ?thesis
        by (auto simp: parsestr_body_def Let_def split: if_splits prod.splits option.splits)
    qed
  next
    case False
    with f assms decode_unicode_with_escapes_err[of env p "take len s" _ p']
    show ?thesis
      by (auto simp: parsestr_body_def Let_def split: if_splits prod.splits option.splits)
  qed
qed

text \<open>For any string given to \<^verbatim>\<open>parsestr\<close>: when the call sets the bytes-non-ascii
  error, the string starts with prefix letters that have a \<^verbatim>\<open>b\<close> or \<^verbatim>\<open>B\<close> among
  them, a quote follows, and what follows the quote has a byte \<open>\<ge> 0x80\<close>.\<close>

lemma parsestr_non_ascii_only_bytes:
  assumes "parsestr env p the_str = Some (out, p')"
      and "err p' = Some (SyntaxError bytes_non_ascii_msg)"
      and "err p \<noteq> Some (SyntaxError bytes_non_ascii_msg)"
  shows "ps_bytesmode out \<and> ps_rc out = -1 \<and> ps_result out = None \<and> ps_fstr out = None
         \<and> (\<exists>pfx q rest. c_str the_str = pfx @ q # rest
              \<and> set pfx \<subseteq> set ''bBuUrRfF''
              \<and> (CHR ''b'' \<in> set pfx \<or> CHR ''B'' \<in> set pfx)
              \<and> (q = CHR 0x27 \<or> q = CHR 0x22)
              \<and> list_ex high_bit rest)"
proof -
  obtain s1 b r f where pl:
    "(if Py_ISALPHA (char_at (c_str the_str) 0) then prefix_loop (c_str the_str) False False False
      else (c_str the_str, False, False, False)) = (s1, b, r, f)"
    by (metis prod_cases4)
  from assms(1) pl assms(2) obtain s' len' where
    st: "strip_triple (tl s1) (length (tl s1) - 1) (char_at s1 0) = Some (s', len')"
    and pb: "parsestr_body env p s' len' b r f = (out, p')"
    and qu: "char_at s1 0 = CHR 0x27 \<or> char_at s1 0 = CHR 0x22"
    by (auto simp: parsestr_def Let_def split: if_splits option.splits)
  from parsestr_body_non_ascii[OF pb assms(2,3)]
  have r: "ps_bytesmode out \<and> ps_rc out = -1 \<and> ps_result out = None \<and> ps_fstr out = None"
       and h: "list_ex high_bit s'" and b: b by simp_all
  from b pl have "prefix_loop (c_str the_str) False False False = (s1, b, r, f)"
    by (auto split: if_splits)
  from prefix_loop_flag[OF this] b obtain pfx where
    pfx: "c_str the_str = pfx @ s1" "set pfx \<subseteq> set ''bBuUrRfF''"
         "CHR ''b'' \<in> set pfx \<or> CHR ''B'' \<in> set pfx"
    by blast
  from qu have s1: "s1 = char_at s1 0 # tl s1"
    by (cases s1) (auto simp: char_at_def)
  from strip_triple_suffix[OF st] have "set s' \<subseteq> set (tl s1)" .
  with h have "list_ex high_bit (tl s1)" by (auto simp: list_ex_iff)
  with pfx qu s1 have "c_str the_str = pfx @ char_at s1 0 # tl s1
              \<and> set pfx \<subseteq> set ''bBuUrRfF''
              \<and> (CHR ''b'' \<in> set pfx \<or> CHR ''B'' \<in> set pfx)
              \<and> (char_at s1 0 = CHR 0x27 \<or> char_at s1 0 = CHR 0x22)
              \<and> list_ex high_bit (tl s1)"
    by simp
  with r show ?thesis by blast
qed

lemma parsestr_bytes_literal_result:
  assumes pre: "(pre, raw) \<in> set bytes_prefixes"
      and q: "q = CHR 0x27 \<or> q = CHR 0x22"
      and nul: "CHR 0x00 \<notin> set body"
      and len: "length body + 5 \<le> 2147483647"
      and qs: "qs = [q] \<and> take 2 body \<noteq> [q, q] \<or> qs = [q, q, q]"
  shows "parsestr env p (pre @ qs @ body @ qs) =
          (let rawmode = (raw \<or> CHR 0x5C \<notin> set body);
               out = \<lparr>ps_rc = -1, ps_bytesmode = True, ps_rawmode = rawmode, ps_result = None,
                      ps_fstr = None, ps_fstrlen = -1\<rparr>
           in if list_ex high_bit body then
                Some (out, raise_syntax_error p bytes_non_ascii_msg)
              else if rawmode then
                Some (out\<lparr>ps_rc := 0, ps_result := Some (PyBytes body)\<rparr>, p)
              else
                (case decode_bytes_with_escapes env p body of
                   (None, p') \<Rightarrow> Some (out, p')
                 | (Some r, p') \<Rightarrow> Some (out\<lparr>ps_rc := 0, ps_result := Some (PyBytes r)\<rparr>, p')))"
proof -
  from qs have qs': "qs = [q] \<or> qs = [q, q, q]" by blast
  have h3: "take (length body) (body @ qs) = body" by simp
  show ?thesis
    unfolding parsestr_bytes_literal[OF assms] parsestr_body_def
      list_ex_quotes[OF q qs'] backslash_quotes[OF q qs'] h3
    by (simp add: bytes_non_ascii_msg_def Let_def split: prod.splits option.splits)
qed

text \<open>
  Claim C8, as the code has it. A bytes literal is a prefix of \<open>bytes_prefixes\<close>, an
  opening quote or three of them, a body without NUL, and the same closing quotes (the
  body of a literal in single quotes does not start with two quotes). For every such
  literal, raw or not: when the body has a byte \<open>\<ge> 0x80\<close>, \<^verbatim>\<open>parsestr\<close> returns -1 with the
  bytes-non-ascii syntax error pending; when it has none and the literal is raw or has
  no backslash, \<^verbatim>\<open>parsestr\<close> returns 0, the result is the body bytes as they are and
  the state is unchanged; otherwise the result is that of the byte escape decoder, which
  never sets the bytes-non-ascii error. And for every string \<open>lit\<close> whatever, text and
  f-string literals included: when \<^verbatim>\<open>parsestr\<close> sets the bytes-non-ascii error, the
  bytes flag is set, no result and no f-string body are returned, and \<open>lit\<close> is made of
  prefix letters with a \<^verbatim>\<open>b\<close> or \<^verbatim>\<open>B\<close> among them, a quote, and a rest that has
  a byte \<open>\<ge> 0x80\<close>.
\<close>

theorem parsestr_bytes_non_ascii:
  assumes pre: "(pre, raw) \<in> set bytes_prefixes"
      and q: "q = CHR 0x27 \<or> q = CHR 0x22"
      and nul: "CHR 0x00 \<notin> set body"
      and len: "length body + 5 \<le> 2147483647"
      and qs: "qs = [q] \<and> take 2 body \<noteq> [q, q] \<or> qs = [q, q, q]"
  shows "parsestr env p (pre @ qs @ body @ qs) =
          (let rawmode = (raw \<or> CHR 0x5C \<notin> set body);
               out = \<lparr>ps_rc = -1, ps_bytesmode = True, ps_rawmode = rawmode, ps_result = None,
                      ps_fstr = None, ps_fstrlen = -1\<rparr>
           in if list_ex high_bit body then
                Some (out, raise_syntax_error p bytes_non_ascii_msg)
              else if rawmode then
                Some (out\<lparr>ps_rc := 0, ps_result := Some (PyBytes body)\<rparr>, p)
              else
                (case decode_bytes_with_escapes env p body of
                   (None, p') \<Rightarrow> Some (out, p')
                 | (Some r, p') \<Rightarrow> Some (out\<lparr>ps_rc := 0, ps_result := Some (PyBytes r)\<rparr>, p')))
     \<and> (\<not> list_ex high_bit body \<longrightarrow>
          (\<forall>out p'. parsestr env p (pre @ qs @ body @ qs) = Some (out, p')
             \<longrightarrow> err p' = Some (SyntaxError bytes_non_ascii_msg)
             \<longrightarrow> err p = Some (SyntaxError bytes_non_ascii_msg)))
     \<and> (\<forall>lit out p'. parsestr env p lit = Some (out, p')
          \<longrightarrow> err p' = Some (SyntaxError bytes_non_ascii_msg)
          \<longrightarrow> err p \<noteq> Some (SyntaxError bytes_non_ascii_msg)
          \<longrightarrow> ps_bytesmode out \<and> ps_rc out = -1 \<and> ps_result out = None \<and> ps_fstr out = None
              \<and> (\<exists>pfx q rest. c_str lit = pfx @ q # rest
                   \<and> set pfx \<subseteq> set ''bBuUrRfF''
                   \<and> (CHR ''b'' \<in> set pfx \<or> CHR ''B'' \<in> set pfx)
                   \<and> (q = CHR 0x27 \<or> q = CHR 0x22)
                   \<and> list_ex high_bit rest))"
proof -
  note 1 = parsestr_bytes_literal_result[OF assms, of env p]
  have 2: "err p = Some (SyntaxError bytes_non_ascii_msg)"
    if "\<not> list_ex high_bit body"
       "parsestr env p (pre @ qs @ body @ qs) = Some (out, p')"
       "err p' = Some (SyntaxError bytes_non_ascii_msg)" for out p'
    using that decode_bytes_with_escapes_err[of env p body _ p'] unfolding 1
    by (auto simp: Let_def split: if_splits prod.splits option.splits)
  have 3: "ps_bytesmode out \<and> ps_rc out = -1 \<and> ps_result out = None \<and> ps_fstr out = None
              \<and> (\<exists>pfx q rest. c_str lit = pfx @ q # rest
                   \<and> set pfx \<subseteq> set ''bBuUrRfF''
                   \<and> (CHR ''b'' \<in> set pfx \<or> CHR ''B'' \<in> set pfx)
                   \<and> (q = CHR 0x27 \<or> q = CHR 0x22)
                   \<and> list_ex high_bit rest)"
    if "parsestr env p lit = Some (out, p')"
       "err p' = Some (SyntaxError bytes_non_ascii_msg)"
       "err p \<noteq> Some (SyntaxError bytes_non_ascii_msg)" for lit out p'
    using that by (rule parsestr_non_ascii_only_bytes)
  from 1 2 3 show ?thesis by blast
qed

lemma parsestr_high_byte:
  "parsestr example_collab example_parser [CHR ''b'', CHR 0x22, CHR 0xFF, CHR 0x22]
   = Some (\<lparr>ps_rc = -1, ps_bytesmode = True, ps_rawmode = True, ps_result = None,
             ps_fstr = None, ps_fstrlen = -1\<rparr>,
           example_parser\<lparr>err := Some (SyntaxError bytes_non_ascii_msg)\<rparr>)"
  by (simp add: parsestr_def c_str_def char_at_def Py_ISALPHA_def Let_def INT_MAX_def
                strip_triple_def parsestr_body_def high_bit_def bytes_non_ascii_msg_def
                raise_syntax_error_def)

lemma parsestr_text_high_byte:
  "parsestr example_collab example_parser [CHR 0x22, CHR 0xC3, CHR 0xA9, CHR 0x22]
   = Some (\<lparr>ps_rc = -1, ps_bytesmode = False, ps_rawmode = True, ps_result = None,
             ps_fstr = None, ps_fstrlen = -1\<rparr>,
           example_parser\<lparr>err := Some CollaboratorError\<rparr>)"
  by (simp add: parsestr_def c_str_def char_at_def Py_ISALPHA_def Let_def INT_MAX_def
                strip_triple_def parsestr_body_def high_bit_def example_collab_def)

theorem parsestr_bytes_non_ascii_witness:
  "(''rb'', True) \<in> set bytes_prefixes
   \<and> CHR 0x00 \<notin> set ''ab'' \<and> length ''ab'' + 5 \<le> (2147483647::nat)
   \<and> take 2 ''ab'' \<noteq> [CHR 0x27, CHR 0x27]
   \<and> parsestr example_collab example_parser
        [CHR ''r'', CHR ''b'', CHR 0x27, CHR ''a'', CHR ''b'', CHR 0x27]
       = Some (\<lparr>ps_rc = 0, ps_bytesmode = True, ps_rawmode = True,
                 ps_result = Some (PyBytes ''ab''), ps_fstr = None, ps_fstrlen = -1\<rparr>,
               example_parser)
   \<and> parsestr example_collab example_parser [CHR ''b'', CHR 0x22, CHR 0xFF, CHR 0x22]
       = Some (\<lparr>ps_rc = -1, ps_bytesmode = True, ps_rawmode = True, ps_result = None,
                 ps_fstr = None, ps_fstrlen = -1\<rparr>,
               example_parser\<lparr>err := Some (SyntaxError bytes_non_ascii_msg)\<rparr>)
   \<and> err example_parser \<noteq> Some (SyntaxError bytes_non_ascii_msg)
   \<and> (\<exists>pfx q rest. c_str [CHR ''b'', CHR 0x22, CHR 0xFF, CHR 0x22] = pfx @ q # rest
         \<and> set pfx \<subseteq> set ''bBuUrRfF''
         \<and> (CHR ''b'' \<in> set pfx \<or> CHR ''B'' \<in> set pfx)
         \<and> (q = CHR 0x27 \<or> q = CHR 0x22)
         \<and> list_ex high_bit rest)"
proof -
  have pre: "(''rb'', True) \<in> set bytes_prefixes" by (simp add: bytes_prefixes_def)
  have q: "CHR 0x27 = CHR 0x27 \<or> CHR 0x27 = CHR 0x22" by simp
  have nul: "CHR 0x00 \<notin> set ''ab''" by simp
  have len: "length ''ab'' + 5 \<le> (2147483647::nat)" by simp
  have qs: "[CHR 0x27] = [CHR 0x27] \<and> take 2 ''ab'' \<noteq> [CHR 0x27, CHR 0x27]
            \<or> [CHR 0x27] = [CHR 0x27, CHR 0x27, CHR 0x27]" by simp
  have e: "err example_parser \<noteq> Some (SyntaxError bytes_non_ascii_msg)"
          "err (example_parser\<lparr>err := Some (SyntaxError bytes_non_ascii_msg)\<rparr>)
             = Some (SyntaxError bytes_non_ascii_msg)"
    by (simp_all add: example_parser_def)
  note t = parsestr_bytes_non_ascii[OF pre q nul len qs, of example_collab example_parser]
  from t have a: "parsestr example_collab example_parser
        [CHR ''r'', CHR ''b'', CHR 0x27, CHR ''a'', CHR ''b'', CHR 0x27]
       = Some (\<lparr>ps_rc = 0, ps_bytesmode = True, ps_rawmode = True,
                 ps_result = Some (PyBytes ''ab''), ps_fstr = None, ps_fstrlen = -1\<rparr>,
               example_parser)"
    by (simp add: high_bit_def Let_def)
  from t parsestr_high_byte e have b:
    "\<exists>pfx q rest. c_str [CHR ''b'', CHR 0x22, CHR 0xFF, CHR 0x22] = pfx @ q # rest
         \<and> set pfx \<subseteq> set ''bBuUrRfF''
         \<and> (CHR ''b'' \<in> set pfx \<or> CHR ''B'' \<in> set pfx)
         \<and> (q = CHR 0x27 \<or> q = CHR 0x22)
         \<and> list_ex high_bit rest"
    by blast
  from a b pre e(1) parsestr_high_byte show ?thesis by simp
qed

text \<open>
  Claim C8 as the specification states it fails: the raw bytes literal \<^verbatim>\<open>rb'\<close>\<open>\<dots>\<close>\<^verbatim>\<open>'\<close>
  whose body is the two bytes 0xC3 0xA9 (a non-ASCII letter in UTF-8) is not returned
  verbatim; the check of the bytes runs before the test of the raw flag, and the syntax
  error is raised.
\<close>

theorem parsestr_raw_bytes_counterexample:
  "parsestr example_collab example_parser
     [CHR ''r'', CHR ''b'', CHR 0x27, CHR 0xC3, CHR 0xA9, CHR 0x27]
   = Some (\<lparr>ps_rc = -1, ps_bytesmode = True, ps_rawmode = True, ps_result = None,
             ps_fstr = None, ps_fstrlen = -1\<rparr>,
           example_parser\<lparr>err := Some (SyntaxError bytes_non_ascii_msg)\<rparr>)"
  by (simp add: parsestr_def c_str_def char_at_def Py_ISALPHA_def Let_def INT_MAX_def
                strip_triple_def parsestr_body_def high_bit_def bytes_non_ascii_msg_def
                raise_syntax_error_def)

subsection \<open>The end of an f-string expression\<close>

lemma find_expr_terminator_break:
  "find_expr_terminator buf end' str ch q st ps = ExprBreak \<longleftrightarrow>
     \<not> (str + 1 < end' \<and> (two_char_operator ch (char_at buf (str + 1)) \<or> angle_char ch))"
  unfolding find_expr_terminator_def two_char_operator_def angle_char_def Let_def
  by auto

lemma find_expr_others_no_break:
  "find_expr_in_string buf end' str ch q st ps \<noteq> ExprBreak"
  "find_expr_open_string buf end' str ch ps \<noteq> ExprBreak"
  "find_expr_close_bracket str ch q st ps \<noteq> ExprBreak"
  by (simp_all add: find_expr_in_string_def find_expr_open_string_def
        find_expr_close_bracket_def Let_def)

lemma find_expr_step_break:
  "find_expr_step env buf end' str quote_char string_type parenstack = ExprBreak \<longleftrightarrow>
     quote_char = CHR 0x00 \<and> parenstack = [] \<and>
     (terminator_char (char_at buf str) \<or> angle_char (char_at buf str)) \<and>
     \<not> (str + 1 < end' \<and>
        (two_char_operator (char_at buf str) (char_at buf (str + 1)) \<or> angle_char (char_at buf str)))"
proof -
  let ?ch = "char_at buf str"
  show ?thesis
  proof (cases "?ch = CHR 0x5C")
    case True
    then show ?thesis by (simp add: find_expr_step_def terminator_char_def angle_char_def)
  next
    case bs: False
    show ?thesis
    proof (cases "quote_char = CHR 0x00")
      case False
      with bs show ?thesis by (simp add: find_expr_step_def find_expr_others_no_break)
    next
      case q: True
      show ?thesis
      proof (cases "terminator_char ?ch \<or> angle_char ?ch")
        case True
        then have g: "?ch = CHR ''!'' \<or> ?ch = CHR '':'' \<or> ?ch = CHR ''}'' \<or>
               ?ch = CHR ''='' \<or> ?ch = CHR ''>'' \<or> ?ch = CHR ''<''"
          by (auto simp: terminator_char_def angle_char_def)
        then have n: "\<not> (?ch = CHR 0x27 \<or> ?ch = CHR 0x22)"
             "\<not> (?ch = CHR ''['' \<or> ?ch = CHR ''{'' \<or> ?ch = CHR ''('')" "?ch \<noteq> CHR ''#''"
          by auto
        show ?thesis
        proof (cases "parenstack = []")
          case True
          with bs q g n True \<open>terminator_char ?ch \<or> angle_char ?ch\<close> show ?thesis
            unfolding find_expr_step_def Let_def
            by (simp only: if_False if_True find_expr_terminator_break list.size simp_thms)
        next
          case False
          then have "length parenstack \<noteq> 0" by simp
          with bs q g n False show ?thesis
            unfolding find_expr_step_def Let_def
            by (simp add: find_expr_others_no_break)
        qed
      next
        case False
        then have g: "\<not> (?ch = CHR ''!'' \<or> ?ch = CHR '':'' \<or> ?ch = CHR ''}'' \<or>
               ?ch = CHR ''='' \<or> ?ch = CHR ''>'' \<or> ?ch = CHR ''<'')"
          by (auto simp: terminator_char_def angle_char_def)
        with bs q False show ?thesis
          unfolding find_expr_step_def Let_def
          by (simp add: find_expr_others_no_break)
      qed
    qed
  qed
qed

lemma find_expr_step_angle:
  assumes "angle_char (char_at buf str)" "str + 1 < end'"
  shows "find_expr_step env buf end' str (CHR 0x00) string_type [] =
           ExprNext (if char_at buf (str + 1) = CHR ''='' then str + 2 else str + 1)
             (CHR 0x00) string_type []"
  using assms
  unfolding find_expr_step_def find_expr_terminator_def angle_char_def Let_def by auto

lemma find_expr_step_two:
  assumes "two_char_operator (char_at buf str) (char_at buf (str + 1))" "str + 1 < end'"
  shows "find_expr_step env buf end' str (CHR 0x00) string_type [] =
           ExprNext (str + 2) (CHR 0x00) string_type []"
  using assms
  unfolding find_expr_step_def find_expr_terminator_def two_char_operator_def Let_def by auto

text \<open>The scan at a position inside the body. Outside brackets and strings, a \<^verbatim>\<open><\<close>
  or \<^verbatim>\<open>>\<close> that has a byte of the body behind it does not end the scan, which goes on
  behind it (behind the \<^verbatim>\<open>=\<close> too when one follows); each of \<^verbatim>\<open>!=\<close>, \<^verbatim>\<open>==\<close>, \<^verbatim>\<open><=\<close>,
  \<^verbatim>\<open>>=\<close> is stepped over as one unit; and the loop is left by \<^verbatim>\<open>break\<close> exactly at a
  \<^verbatim>\<open>!\<close>, \<^verbatim>\<open>:\<close>, \<^verbatim>\<open>}\<close> or \<^verbatim>\<open>=\<close> that does not start one of these operators, or at a
  \<^verbatim>\<open><\<close> or \<^verbatim>\<open>>\<close> that is the last byte of the body.\<close>

lemma find_expr_scan_steps:
  assumes "str < end'"
  shows "(angle_char (char_at buf str) \<and> str + 1 < end' \<longrightarrow>
            find_expr_loop env buf end' str (CHR 0x00) string_type [] =
            find_expr_loop env buf end'
              (if char_at buf (str + 1) = CHR ''='' then str + 2 else str + 1)
              (CHR 0x00) string_type [])
       \<and> (two_char_operator (char_at buf str) (char_at buf (str + 1)) \<and> str + 1 < end' \<longrightarrow>
            find_expr_loop env buf end' str (CHR 0x00) string_type [] =
            find_expr_loop env buf end' (str + 2) (CHR 0x00) string_type [])
       \<and> (find_expr_step env buf end' str quote_char string_type parenstack = ExprBreak \<longleftrightarrow>
            quote_char = CHR 0x00 \<and> parenstack = [] \<and>
            (terminator_char (char_at buf str) \<and>
               \<not> (str + 1 < end' \<and> two_char_operator (char_at buf str) (char_at buf (str + 1)))
             \<or> angle_char (char_at buf str) \<and> \<not> str + 1 < end'))
       \<and> (find_expr_step env buf end' str quote_char string_type parenstack = ExprBreak \<longrightarrow>
            find_expr_loop env buf end' str quote_char string_type parenstack =
            ScanExit str quote_char parenstack)"
proof (intro conjI impI)
  assume a: "angle_char (char_at buf str) \<and> str + 1 < end'"
  show "find_expr_loop env buf end' str (CHR 0x00) string_type [] =
        find_expr_loop env buf end'
          (if char_at buf (str + 1) = CHR ''='' then str + 2 else str + 1) (CHR 0x00) string_type []"
    by (subst find_expr_loop.simps)
       (simp only: assms find_expr_step_angle[OF conjunct1[OF a] conjunct2[OF a]] if_True
                   expr_step.case)
next
  assume a: "two_char_operator (char_at buf str) (char_at buf (str + 1)) \<and> str + 1 < end'"
  show "find_expr_loop env buf end' str (CHR 0x00) string_type [] =
        find_expr_loop env buf end' (str + 2) (CHR 0x00) string_type []"
    by (subst find_expr_loop.simps)
       (simp only: assms find_expr_step_two[OF conjunct1[OF a] conjunct2[OF a]] if_True
                   expr_step.case)
next
  show "find_expr_step env buf end' str quote_char string_type parenstack = ExprBreak \<longleftrightarrow>
            quote_char = CHR 0x00 \<and> parenstack = [] \<and>
            (terminator_char (char_at buf str) \<and>
               \<not> (str + 1 < end' \<and> two_char_operator (char_at buf str) (char_at buf (str + 1)))
             \<or> angle_char (char_at buf str) \<and> \<not> str + 1 < end')"
    unfolding find_expr_step_break
    by (auto simp: terminator_char_def angle_char_def two_char_operator_def)
next
  assume "find_expr_step env buf end' str quote_char string_type parenstack = ExprBreak"
  then show "find_expr_loop env buf end' str quote_char string_type parenstack =
            ScanExit str quote_char parenstack"
    by (subst find_expr_loop.simps) (simp only: assms if_True expr_step.case)
qed

lemma angle_body_scan:
  "find_expr_step example_collab angle_body 5 2 (CHR 0x00) 0 [] = ExprNext 3 (CHR 0x00) 0 []"
  by (simp add: find_expr_step_def find_expr_terminator_def char_at_def angle_body_def)

text \<open>
  Claim C9. A single \<^verbatim>\<open><\<close> or \<^verbatim>\<open>>\<close> outside brackets and strings is never to end the
  expression body. In \<^verbatim>\<open>f"{a<"\<close> it does: the \<^verbatim>\<open><\<close> is the last byte of the body, the
  test for a next character (\<^verbatim>\<open>*str+1 < end\<close>) fails, and with it the \<^verbatim>\<open>continue\<close>
  for a single angle bracket, which sits inside that test, is not reached. The loop is
  left by \<^verbatim>\<open>break\<close> at the \<^verbatim>\<open><\<close>, in front of the end of the body, and the bytes that
  go to \<^verbatim>\<open>fstring_compile_expr\<close> are \<^verbatim>\<open>a\<close>, with \<^verbatim>\<open>expr_end\<close> at a character that is
  none of \<^verbatim>\<open>} ! : =\<close>. In \<^verbatim>\<open>f"{a<b}"\<close> the same character is stepped over.
\<close>

theorem find_expr_breaks_at_last_angle:
  "char_at angle_last_body 2 = CHR ''<''
   \<and> find_expr_step example_collab angle_last_body 3 2 (CHR 0x00) 0 [] = ExprBreak
   \<and> find_expr_loop example_collab angle_last_body 3 1 (CHR 0x00) 0 [] = ScanExit 2 (CHR 0x00) []
   \<and> 2 < (3::nat)
   \<and> bytes_between angle_last_body 1 2 = ''a''
   \<and> \<not> terminator_char (char_at angle_last_body 2)
   \<and> char_at angle_body 2 = CHR ''<''
   \<and> find_expr_step example_collab angle_body 5 2 (CHR 0x00) 0 [] = ExprNext 3 (CHR 0x00) 0 []"
proof -
  have 1: "find_expr_step example_collab angle_last_body 3 1 (CHR 0x00) 0 [] = ExprNext 2 (CHR 0x00) 0 []"
    by (simp add: find_expr_step_def char_at_def angle_last_body_def)
  have 2: "find_expr_step example_collab angle_last_body 3 2 (CHR 0x00) 0 [] = ExprBreak"
    by (simp add: find_expr_step_def find_expr_terminator_def char_at_def angle_last_body_def)
  have lt: "(2::nat) < 3 = True" "(1::nat) < 3 = True" by simp_all
  have 3: "find_expr_loop example_collab angle_last_body 3 2 (CHR 0x00) 0 [] = ScanExit 2 (CHR 0x00) []"
    by (subst find_expr_loop.simps) (simp only: 2 lt if_True expr_step.case)
  have 4: "find_expr_loop example_collab angle_last_body 3 1 (CHR 0x00) 0 [] = ScanExit 2 (CHR 0x00) []"
    by (subst find_expr_loop.simps) (simp only: 1 3 lt if_True expr_step.case)
  have 5: "bytes_between angle_last_body 1 2 = ''a''"
    by (simp add: bytes_between_def angle_last_body_def)
  have 6: "char_at angle_last_body 2 = CHR ''<''" "\<not> terminator_char (char_at angle_last_body 2)"
          "char_at angle_body 2 = CHR ''<''"
    by (simp_all add: char_at_def angle_last_body_def angle_body_def terminator_char_def)
  show ?thesis using 2 4 5 6 angle_body_scan by simp
qed

subsection \<open>Errors of the segmenter and the sub-parser\<close>

lemma close_brace_expect:
  "expect_token close_brace_parser STRING =
     Some (Some close_brace_token, close_brace_parser\<lparr>mark := 1\<rparr>)"
  by (simp add: expect_token_def expect_token_at_def close_brace_parser_def example_parser_def
                close_brace_token_def Let_def)

lemma close_brace_parsestr:
  "parsestr env p (t_bytes close_brace_token) =
     Some (\<lparr>ps_rc = 0, ps_bytesmode = False, ps_rawmode = False, ps_result = None,
             ps_fstr = Some [CHR ''}'', CHR 0x22], ps_fstrlen = 1\<rparr>, p)"
  by (simp add: parsestr_def c_str_def char_at_def Py_ISALPHA_def Let_def INT_MAX_def
                strip_triple_def parsestr_body_def close_brace_token_def)

lemma close_brace_scan:
  "find_literal_loop env [CHR ''}'', CHR 0x22] (Suc 0) False 0 0 p =
     LitError (Some 0) (raise_syntax_error p single_close_brace_msg)"
  by (subst find_literal_loop.simps)
     (simp add: find_literal_step_def find_literal_braces_def char_at_def single_close_brace_msg_def)

lemma close_brace_loop:
  "ConcatFstring_loop (Suc fuel) env p state [CHR ''}'', CHR 0x22] 0 (Suc 0) False 0 t =
     Done (-1, 0, state, raise_syntax_error p single_close_brace_msg)"
  by (simp add: fstring_find_literal_and_expr_with_def find_literal_part_def
                fstring_find_literal_def close_brace_scan concat_iteration_def)

lemma close_brace_concat:
  "FstringParser_ConcatFstring (Suc fuel) env p FstringParser_Init [CHR ''}'', CHR 0x22] 0 (Suc 0) False 0 t =
     Done (-1, 0, FstringParser_Init\<lparr>fmode := True\<rparr>, raise_syntax_error p single_close_brace_msg)"
  by (simp add: FstringParser_ConcatFstring_def FstringParser_ConcatFstring_with_def close_brace_loop
           del: ConcatFstring_loop.simps)

lemma FstringParser_Init_fields:
  "last_str FstringParser_Init = None" "expr_list FstringParser_Init = []"
  "fmode FstringParser_Init = False"
  by (simp_all add: FstringParser_Init_def)

text \<open>
  Claim C2 fails on the code. For the token \<^verbatim>\<open>f"}"\<close> the segmenter returns -1 with the
  syntax error for the lone \<^verbatim>\<open>}\<close> pending, and \<^verbatim>\<open>string_token\<close> still returns a node: the
  joined string that \<^verbatim>\<open>FstringParser_Finish\<close> makes of the accumulator, here one without
  values. The error stays pending beside the node.
\<close>

theorem string_token_keeps_going_after_error:
  "\<forall>fuel.
     FstringParser_ConcatFstring (Suc fuel) example_collab (close_brace_parser\<lparr>mark := 1\<rparr>)
         FstringParser_Init [CHR ''}'', CHR 0x22] 0 1 False 0 close_brace_token
       = Done (-1, 0, FstringParser_Init\<lparr>fmode := True\<rparr>,
               close_brace_parser\<lparr>mark := 1, err := Some (SyntaxError single_close_brace_msg)\<rparr>)
     \<and> string_token (Suc fuel) example_collab close_brace_parser
       = Done (Some (JoinedStr (Some []) (token_location close_brace_token)),
               close_brace_parser\<lparr>mark := 1, err := Some (SyntaxError single_close_brace_msg)\<rparr>)"
  by (simp add: string_token_def close_brace_expect close_brace_parsestr close_brace_concat
                FstringParser_Finish_def FstringParser_Init_fields raise_syntax_error_def)

text \<open>
  Claim C1 fails on the code. For the body \<^verbatim>\<open>x\<close> the new parser's start rule returns the
  module of the one statement \<^verbatim>\<open>x\<close>, and \<^verbatim>\<open>fstring_compile_expr\<close> does not return that
  statement's value: what it returns is read from the identifier \<^verbatim>\<open>expr\<close>. There is no
  result when \<^verbatim>\<open>expr\<close> is null, and when \<^verbatim>\<open>expr\<close> is a subscript of \<^verbatim>\<open>y\<close> the result is
  \<^verbatim>\<open>y\<close>.
\<close>

theorem fstring_compile_expr_ignores_module:
  "start_rule_func example_collab p = (Some name_x_module, p)
   \<and> fstring_compile_expr example_collab example_parser ''x'' = None
   \<and> fstring_compile_expr subscript_collab example_parser ''x''
       = Some (Some (Name ''y'' Load example_loc), example_parser)"
  by (simp add: fstring_compile_expr_def example_collab_def subscript_collab_def name_x_module_def
                fill_token_def PyTokenizer_Get_def example_lexeme_def NAME_def ERRORTOKEN_def
                STRING_def zero_Token_def Let_def get_keyword_or_name_type_def asdl_seq_LEN_def
                example_parser_def)

subsection \<open>Doubled braces\<close>

lemma find_literal_step_plain:
  assumes "char_at buf s = c" "c \<noteq> CHR ''{''" "c \<noteq> CHR ''}''" "raw \<or> c \<noteq> CHR 0x5C"
  shows "find_literal_step env buf end' raw lvl s p = Again (Suc s) p"
  using assms by (auto simp: find_literal_step_def find_literal_braces_def Let_def)

lemma find_literal_step_escape:
  assumes "\<not> raw" "char_at buf s = CHR 0x5C" "Suc s < end'" "char_at buf (Suc s) = d"
          "d \<noteq> CHR ''N''" "d \<noteq> CHR ''{''" "d \<noteq> CHR ''}''"
  shows "find_literal_step env buf end' raw lvl s p = Again (Suc (Suc s)) p"
  using assms by (simp add: find_literal_step_def find_literal_braces_def Let_def)

lemma find_literal_step_doubled:
  assumes "char_at buf s = c" "c = CHR ''{'' \<or> c = CHR ''}''" "Suc s < end'" "char_at buf (Suc s) = c"
  shows "find_literal_step env buf end' raw 0 s p = Leave (LitEnd (Suc s) (Suc (Suc s)) 1 p)"
  using assms by (auto simp: find_literal_step_def find_literal_braces_def Let_def)

lemma find_literal_step_nested:
  assumes "char_at buf s = c" "c = CHR ''{'' \<or> c = CHR ''}''" "lvl \<noteq> 0"
  shows "find_literal_step env buf end' raw lvl s p = Leave (LitEnd s s 0 p)"
  using assms by (auto simp: find_literal_step_def find_literal_braces_def Let_def)

lemma find_literal_loop_Again:
  assumes "s < end'" "find_literal_step env buf end' raw lvl s p = Again s' p'"
  shows "find_literal_loop env buf end' raw lvl s p = find_literal_loop env buf end' raw lvl s' p'"
  by (subst find_literal_loop.simps) (simp only: assms if_True lit_step.case)

lemma find_literal_loop_Leave:
  assumes "s < end'" "find_literal_step env buf end' raw lvl s p = Leave r"
  shows "find_literal_loop env buf end' raw lvl s p = r"
  by (subst find_literal_loop.simps) (simp only: assms if_True lit_step.case)

lemma find_literal_loop_end:
  assumes "\<not> s < end'"
  shows "find_literal_loop env buf end' raw lvl s p = LitEnd s s 0 p"
  by (subst find_literal_loop.simps) (simp only: assms if_False)

lemma char_at_append: "char_at (pre @ c # rest) (length pre) = c"
  by (simp add: char_at_def)

lemma bytes_between_prefix: "bytes_between (a @ b) 0 (length a) = a"
  by (simp add: bytes_between_def)

lemma bytes_between_mid: "bytes_between (a @ b @ c) (length a) (length a + length b) = b"
  by (simp add: bytes_between_def)

lemma find_literal_and_expr_no_expr:
  assumes "fstring_find_literal env p buf str end' raw lvl = (r, str', lit, p')"
      and "r = 1 \<or> (r = 0 \<and> str' \<ge> end')"
  shows "fstring_find_literal_and_expr_with loop env p buf str end' raw lvl t =
           Done (r, str', lit, None, None, p')"
  using assms by (auto simp: fstring_find_literal_and_expr_with_def find_literal_part_def)

lemma literal_decodes_decode_literal:
  "literal_decodes env raw s v \<Longrightarrow> decode_literal env p raw s = (Some v, p)"
  by (auto simp: literal_decodes_def decode_literal_def decode_unicode_with_escapes_def
                 warn_invalid_escape_sequence_def
           split: if_splits option.splits prod.splits warn_outcome.splits)

lemma skip_unicode_name_closed:
  assumes "CHR ''}'' \<notin> set name" "length pre + length name < end'"
  shows "skip_unicode_name (pre @ name @ CHR ''}'' # suf) end' (length pre)
           = Suc (length pre + length name)"
  using assms
proof (induction name arbitrary: pre)
  case Nil
  then show ?case
    by (subst skip_unicode_name.simps) (simp add: char_at_def)
next
  case (Cons a name)
  have c: "char_at (pre @ (a # name) @ CHR ''}'' # suf) (length pre) = a"
    by (simp add: char_at_def)
  have ih: "skip_unicode_name ((pre @ [a]) @ name @ CHR ''}'' # suf) end' (length (pre @ [a]))
              = Suc (length (pre @ [a]) + length name)"
    using Cons.prems by (intro Cons.IH) simp_all
  have lt: "length pre < end'" using Cons.prems by simp
  show ?case
    using Cons.prems ih
    by (subst skip_unicode_name.simps) (auto simp: char_at_def)
qed

lemma name_split:
  assumes "CHR ''}'' \<in> set es"
  shows "es = takeWhile (\<lambda>c. c \<noteq> CHR ''}'') es @ CHR ''}'' # tl (dropWhile (\<lambda>c. c \<noteq> CHR ''}'') es)"
    and "CHR ''}'' \<notin> set (takeWhile (\<lambda>c. c \<noteq> CHR ''}'') es)"
proof -
  from assms have "dropWhile (\<lambda>c. c \<noteq> CHR ''}'') es \<noteq> []" by (simp add: dropWhile_eq_Nil_conv)
  then have "dropWhile (\<lambda>c. c \<noteq> CHR ''}'') es
               = hd (dropWhile (\<lambda>c. c \<noteq> CHR ''}'') es) # tl (dropWhile (\<lambda>c. c \<noteq> CHR ''}'') es)"
    by simp
  moreover have "hd (dropWhile (\<lambda>c. c \<noteq> CHR ''}'') es) = CHR ''}''"
    using hd_dropWhile[OF \<open>dropWhile (\<lambda>c. c \<noteq> CHR ''}'') es \<noteq> []\<close>] by simp
  ultimately have "dropWhile (\<lambda>c. c \<noteq> CHR ''}'') es = CHR ''}'' # tl (dropWhile (\<lambda>c. c \<noteq> CHR ''}'') es)"
    by simp
  then show "es = takeWhile (\<lambda>c. c \<noteq> CHR ''}'') es @ CHR ''}'' # tl (dropWhile (\<lambda>c. c \<noteq> CHR ''}'') es)"
    using takeWhile_dropWhile_id[of "\<lambda>c. c \<noteq> CHR ''}''" es] by simp
  show "CHR ''}'' \<notin> set (takeWhile (\<lambda>c. c \<noteq> CHR ''}'') es)"
    by (auto dest: set_takeWhileD)
qed

lemma find_literal_step_name:
  assumes "\<not> raw" "char_at buf s = CHR 0x5C" "Suc s < end'" "char_at buf (Suc s) = CHR ''N''"
          "Suc (Suc s) < end'" "char_at buf (Suc (Suc s)) = CHR ''{''"
  shows "find_literal_step env buf end' raw lvl s p
           = Again (skip_unicode_name buf end' (Suc (Suc (Suc s)))) p"
  using assms by (simp add: find_literal_step_def Let_def)

lemma char_at_append2: "char_at (pre @ c # d # rest) (Suc (length pre)) = d"
  by (simp add: char_at_def nth_append)

lemma char_at_append3: "char_at (pre @ c # d # e # rest) (Suc (Suc (length pre))) = e"
  by (simp add: char_at_def nth_append)

lemma find_literal_loop_literal_run:
  assumes "literal_run raw x" and "length pre + length x \<le> end'"
  shows "find_literal_loop env (pre @ x @ suf) end' raw lvl (length pre) p =
         find_literal_loop env (pre @ x @ suf) end' raw lvl (length pre + length x) p"
  using assms
proof (induction raw x arbitrary: pre rule: literal_run.induct)
  case (1 raw)
  then show ?case by simp
next
  case (2 raw c cs)
  let ?buf = "pre @ (c # cs) @ suf"
  from "2.prems"(1) have nb: "\<not> (c = CHR ''{'' \<or> c = CHR ''}'')" by (auto split: if_splits)
  have lt: "length pre < end'" using "2.prems"(2) by simp
  have c: "char_at ?buf (length pre) = c" by (simp add: char_at_append)
  show ?case
  proof (cases "\<not> raw \<and> c = CHR 0x5C")
    case False
    with "2.prems"(1) nb have lr: "literal_run raw cs" by simp
    have st: "find_literal_step env ?buf end' raw lvl (length pre) p = Again (Suc (length pre)) p"
      using c nb False by (intro find_literal_step_plain[where c = c]) auto
    have ih: "find_literal_loop env ((pre @ [c]) @ cs @ suf) end' raw lvl (length (pre @ [c])) p =
              find_literal_loop env ((pre @ [c]) @ cs @ suf) end' raw lvl
                (length (pre @ [c]) + length cs) p"
      using "2.prems"(2) by (intro "2.IH"(3)[OF nb False lr]) simp
    show ?thesis using find_literal_loop_Again[OF lt st] ih by simp
  next
    case esc: True
    with "2.prems"(1) nb obtain d ds where cs: "cs = d # ds" by (cases cs) auto
    have lt2: "Suc (length pre) < end'" using "2.prems"(2) cs by simp
    have d: "char_at ?buf (Suc (length pre)) = d" by (simp add: cs char_at_append2)
    show ?thesis
    proof (cases "d = CHR ''N''")
      case False
      with "2.prems"(1) nb esc cs have p: "d \<noteq> CHR ''{''" "d \<noteq> CHR ''}''" "literal_run raw ds"
        by simp_all
      have st: "find_literal_step env ?buf end' raw lvl (length pre) p
                  = Again (Suc (Suc (length pre))) p"
        using esc c d False p lt2 by (intro find_literal_step_escape[where d = d]) simp_all
      have ih: "find_literal_loop env ((pre @ [c, d]) @ ds @ suf) end' raw lvl (length (pre @ [c, d])) p =
                find_literal_loop env ((pre @ [c, d]) @ ds @ suf) end' raw lvl
                  (length (pre @ [c, d]) + length ds) p"
        using "2.prems"(2) cs by (intro "2.IH"(2)[OF nb esc cs False p(3)]) simp
      show ?thesis using find_literal_loop_Again[OF lt st] ih by (simp add: cs)
    next
      case N: True
      with "2.prems"(1) nb esc cs obtain es where
        ds: "ds = CHR ''{'' # es" and cl: "CHR ''}'' \<in> set es"
        and lr: "literal_run raw (tl (dropWhile (\<lambda>c. c \<noteq> CHR ''}'') es))"
        by (cases ds) auto
      define name where "name = takeWhile (\<lambda>c. c \<noteq> CHR ''}'') es"
      define more where "more = tl (dropWhile (\<lambda>c. c \<noteq> CHR ''}'') es)"
      have es: "es = name @ CHR ''}'' # more" and nm: "CHR ''}'' \<notin> set name"
        using name_split[OF cl] by (simp_all add: name_def more_def)
      have lt3: "Suc (Suc (length pre)) < end'" using "2.prems"(2) cs ds by simp
      have e: "char_at ?buf (Suc (Suc (length pre))) = CHR ''{''"
        by (simp add: cs ds char_at_append3)
      have st: "find_literal_step env ?buf end' raw lvl (length pre) p
                  = Again (skip_unicode_name ?buf end' (Suc (Suc (Suc (length pre))))) p"
        using esc c d N lt2 lt3 e by (intro find_literal_step_name) simp_all
      have buf: "?buf = (pre @ [c, d, CHR ''{'']) @ name @ CHR ''}'' # (more @ suf)"
        by (simp add: cs ds es)
      have sk: "skip_unicode_name ?buf end' (Suc (Suc (Suc (length pre))))
                  = Suc (length (pre @ [c, d, CHR ''{'']) + length name)"
        unfolding buf
        using skip_unicode_name_closed[OF nm, of "pre @ [c, d, CHR ''{'']" end' "more @ suf"]
              "2.prems"(2) cs ds es
        by simp
      have lrm: "literal_run raw more" using lr by (simp add: more_def)
      have len': "length (pre @ [c, d, CHR ''{''] @ name @ [CHR ''}'']) + length more \<le> end'"
        using "2.prems"(2) cs ds es by simp
      note ih = "2.IH"(1)[OF nb esc cs N ds, folded more_def, OF lrm len']
      have buf2: "?buf = (pre @ [c, d, CHR ''{''] @ name @ [CHR ''}'']) @ more @ suf"
        by (simp add: cs ds es)
      have len: "length (c # cs) = length ([c, d, CHR ''{''] @ name @ [CHR ''}'']) + length more"
        by (simp add: cs ds es)
      show ?thesis
        unfolding find_literal_loop_Again[OF lt st] sk
        using ih unfolding buf2[symmetric] len by (simp add: add.assoc)
    qed
  qed
qed

lemma find_literal_step_escaped_doubled:
  assumes "\<not> raw" "char_at buf s = CHR 0x5C" "Suc s < end'" "char_at buf (Suc s) = b"
          "b = CHR ''{'' \<or> b = CHR ''}''" "Suc (Suc s) < end'" "char_at buf (Suc (Suc s)) = b"
          "b = CHR ''{'' \<longrightarrow> PyErr_WarnExplicitObject env (CHR ''{'') = WarnIssued"
  shows "find_literal_step env buf end' raw 0 s p
           = Leave (LitEnd (Suc (Suc s)) (Suc (Suc (Suc s))) 1 p)"
  using assms
  by (auto simp: find_literal_step_def find_literal_braces_def warn_invalid_escape_sequence_def
                 Let_def)

lemma find_literal_step_escaped_nested:
  assumes "\<not> raw" "char_at buf s = CHR 0x5C" "Suc s < end'" "char_at buf (Suc s) = b"
          "b = CHR ''{'' \<or> b = CHR ''}''" "lvl \<noteq> 0"
          "b = CHR ''{'' \<longrightarrow> PyErr_WarnExplicitObject env (CHR ''{'') = WarnIssued"
  shows "find_literal_step env buf end' raw lvl s p = Leave (LitEnd (Suc s) (Suc s) 0 p)"
  using assms
  by (auto simp: find_literal_step_def find_literal_braces_def warn_invalid_escape_sequence_def
                 Let_def)

lemma find_literal_step_last_backslash:
  assumes "char_at buf s = CHR 0x5C" "Suc s = end'"
  shows "find_literal_step env buf end' raw lvl s p = Again (Suc s) p"
  using assms by (auto simp: find_literal_step_def find_literal_braces_def Let_def)

lemma find_literal_loop_doubled:
  assumes b: "b = CHR ''{'' \<or> b = CHR ''}''"
      and esc: "esc \<longrightarrow> \<not> raw \<and> (b = CHR ''{'' \<longrightarrow> PyErr_WarnExplicitObject env (CHR ''{'') = WarnIssued)"
      and len: "length pre + length (esc_bytes esc) + 2 \<le> end'"
  shows "find_literal_loop env (pre @ esc_bytes esc @ [b, b] @ suf) end' raw 0 (length pre) p
           = LitEnd (length pre + length (esc_bytes esc) + 1) (length pre + length (esc_bytes esc) + 2) 1 p"
proof (cases esc)
  case False
  let ?buf = "pre @ b # b # suf"
  have c: "char_at ?buf (length pre) = b" "char_at ?buf (Suc (length pre)) = b"
    by (simp_all add: char_at_append char_at_append2)
  have lt: "length pre < end'" "Suc (length pre) < end'" using len by simp_all
  have "find_literal_loop env ?buf end' raw 0 (length pre) p
          = LitEnd (Suc (length pre)) (Suc (Suc (length pre))) 1 p"
    by (rule find_literal_loop_Leave[OF lt(1) find_literal_step_doubled[OF c(1) b lt(2) c(2)]])
  with False show ?thesis by (simp add: esc_bytes_def)
next
  case True
  let ?buf = "pre @ CHR 0x5C # b # b # suf"
  have c: "char_at ?buf (length pre) = CHR 0x5C" "char_at ?buf (Suc (length pre)) = b"
          "char_at ?buf (Suc (Suc (length pre))) = b"
    by (simp_all add: char_at_append char_at_append2 char_at_append3)
  have lt: "length pre < end'" "Suc (length pre) < end'" "Suc (Suc (length pre)) < end'"
    using len True by (simp_all add: esc_bytes_def)
  from esc True have r: "\<not> raw"
    and w: "b = CHR ''{'' \<longrightarrow> PyErr_WarnExplicitObject env (CHR ''{'') = WarnIssued" by simp_all
  have "find_literal_loop env ?buf end' raw 0 (length pre) p
          = LitEnd (Suc (Suc (length pre))) (Suc (Suc (Suc (length pre)))) 1 p"
    by (rule find_literal_loop_Leave[OF lt(1)
              find_literal_step_escaped_doubled[OF r c(1) lt(2) c(2) b lt(3) c(3) w]])
  with True show ?thesis by (simp add: esc_bytes_def)
qed

lemma find_literal_loop_nested_brace:
  assumes b: "b = CHR ''{'' \<or> b = CHR ''}''"
      and esc: "esc \<longrightarrow> \<not> raw \<and> (b = CHR ''{'' \<longrightarrow> PyErr_WarnExplicitObject env (CHR ''{'') = WarnIssued)"
      and len: "length pre + length (esc_bytes esc) < end'"
      and lvl: "lvl \<noteq> 0"
  shows "find_literal_loop env (pre @ esc_bytes esc @ b # suf) end' raw lvl (length pre) p
           = LitEnd (length pre + length (esc_bytes esc)) (length pre + length (esc_bytes esc)) 0 p"
proof (cases esc)
  case False
  let ?buf = "pre @ b # suf"
  have c: "char_at ?buf (length pre) = b" by (simp add: char_at_append)
  have lt: "length pre < end'" using len by simp
  have "find_literal_loop env ?buf end' raw lvl (length pre) p = LitEnd (length pre) (length pre) 0 p"
    by (rule find_literal_loop_Leave[OF lt find_literal_step_nested[OF c b lvl]])
  with False show ?thesis by (simp add: esc_bytes_def)
next
  case True
  let ?buf = "pre @ CHR 0x5C # b # suf"
  have c: "char_at ?buf (length pre) = CHR 0x5C" "char_at ?buf (Suc (length pre)) = b"
    by (simp_all add: char_at_append char_at_append2)
  have lt: "length pre < end'" "Suc (length pre) < end'"
    using len True by (simp_all add: esc_bytes_def)
  from esc True have r: "\<not> raw"
    and w: "b = CHR ''{'' \<longrightarrow> PyErr_WarnExplicitObject env (CHR ''{'') = WarnIssued" by simp_all
  have "find_literal_loop env ?buf end' raw lvl (length pre) p
          = LitEnd (Suc (length pre)) (Suc (length pre)) 0 p"
    by (rule find_literal_loop_Leave[OF lt(1)
              find_literal_step_escaped_nested[OF r c(1) lt(2) c(2) b lvl w]])
  with True show ?thesis by (simp add: esc_bytes_def)
qed

text \<open>The scan of a run, an optional backslash and a doubled brace.\<close>

lemma find_literal_loop_segment:
  assumes run: "literal_run raw r"
      and b: "b = CHR ''{'' \<or> b = CHR ''}''"
      and esc: "esc \<longrightarrow> \<not> raw \<and> (b = CHR ''{'' \<longrightarrow> PyErr_WarnExplicitObject env (CHR ''{'') = WarnIssued)"
      and len: "length pre + length (r @ esc_bytes esc @ [b, b]) \<le> end'"
  shows "find_literal_loop env (pre @ (r @ esc_bytes esc @ [b, b]) @ suf) end' raw 0 (length pre) p
           = LitEnd (length pre + length (r @ esc_bytes esc @ [b]))
                    (length pre + length (r @ esc_bytes esc @ [b, b])) 1 p"
proof -
  have l1: "length pre + length r \<le> end'" using len by simp
  have l2: "length (pre @ r) + length (esc_bytes esc) + 2 \<le> end'" using len by simp
  have "find_literal_loop env (pre @ r @ (esc_bytes esc @ [b, b] @ suf)) end' raw 0 (length pre) p
          = find_literal_loop env (pre @ r @ (esc_bytes esc @ [b, b] @ suf)) end' raw 0
              (length pre + length r) p"
    by (rule find_literal_loop_literal_run[OF run l1])
  also have "\<dots> = LitEnd (length (pre @ r) + length (esc_bytes esc) + 1)
                     (length (pre @ r) + length (esc_bytes esc) + 2) 1 p"
    using find_literal_loop_doubled[OF b esc l2, of suf p] by simp
  finally show ?thesis by simp
qed

lemma fstring_find_literal_segment:
  assumes run: "literal_run raw r"
      and b: "b = CHR ''{'' \<or> b = CHR ''}''"
      and esc: "esc \<longrightarrow> \<not> raw \<and> (b = CHR ''{'' \<longrightarrow> PyErr_WarnExplicitObject env (CHR ''{'') = WarnIssued)"
      and len: "length pre + length (r @ esc_bytes esc @ [b, b]) \<le> end'"
      and dec: "literal_decodes env raw (r @ esc_bytes esc @ [b]) v"
  shows "fstring_find_literal env p (pre @ (r @ esc_bytes esc @ [b, b]) @ suf) (length pre) end' raw 0
           = (1, length pre + length (r @ esc_bytes esc @ [b, b]), Some v, p)"
proof -
  let ?buf = "pre @ (r @ esc_bytes esc @ [b, b]) @ suf"
  have bb: "bytes_between ?buf (length pre) (length pre + length (r @ esc_bytes esc @ [b]))
              = r @ esc_bytes esc @ [b]"
    using bytes_between_mid[of pre "r @ esc_bytes esc @ [b]" "b # suf"] by simp
  have ne: "length pre \<noteq> length pre + length (r @ esc_bytes esc @ [b])" by simp
  show ?thesis
    unfolding fstring_find_literal_def find_literal_loop_segment[OF run b esc len] Let_def
    by (simp only: lit_scan.case ne if_True bb literal_decodes_decode_literal[OF dec]
                   prod.case option.case simp_thms)
qed

text \<open>The scan of the last run and an optional backslash at the end of the body.\<close>

lemma find_literal_loop_last:
  assumes run: "literal_run raw r"
  shows "find_literal_loop env (pre @ (r @ esc_bytes esc) @ suf) (length pre + length (r @ esc_bytes esc))
           raw lvl (length pre) p
         = LitEnd (length pre + length (r @ esc_bytes esc)) (length pre + length (r @ esc_bytes esc)) 0 p"
proof -
  let ?e = "length pre + length (r @ esc_bytes esc)"
  have l1: "length pre + length r \<le> ?e" by simp
  have 1: "find_literal_loop env (pre @ r @ (esc_bytes esc @ suf)) ?e raw lvl (length pre) p
          = find_literal_loop env (pre @ r @ (esc_bytes esc @ suf)) ?e raw lvl (length pre + length r) p"
    by (rule find_literal_loop_literal_run[OF run l1])
  show ?thesis
  proof (cases esc)
    case False
    then show ?thesis using 1 by (simp add: esc_bytes_def find_literal_loop_end)
  next
    case True
    let ?buf = "(pre @ r) @ CHR 0x5C # suf"
    have c: "char_at ?buf (length (pre @ r)) = CHR 0x5C" by (rule char_at_append)
    have e: "Suc (length (pre @ r)) = ?e" using True by (simp add: esc_bytes_def)
    have lt: "length (pre @ r) < ?e" using True by (simp add: esc_bytes_def)
    have "find_literal_loop env ?buf ?e raw lvl (length (pre @ r)) p
            = find_literal_loop env ?buf ?e raw lvl (Suc (length (pre @ r))) p"
      by (rule find_literal_loop_Again[OF lt find_literal_step_last_backslash[OF c e]])
    also have "\<dots> = LitEnd ?e ?e 0 p"
      unfolding e by (rule find_literal_loop_end) simp
    finally show ?thesis using 1 True by (simp add: esc_bytes_def)
  qed
qed

lemma fstring_find_literal_last:
  assumes run: "literal_run raw r"
      and dec: "r @ esc_bytes esc \<noteq> [] \<longrightarrow> literal_decodes env raw (r @ esc_bytes esc) v"
  shows "fstring_find_literal env p (pre @ (r @ esc_bytes esc) @ suf) (length pre)
           (length pre + length (r @ esc_bytes esc)) raw lvl
         = (0, length pre + length (r @ esc_bytes esc),
            if r @ esc_bytes esc = [] then None else Some v, p)"
proof (cases "r @ esc_bytes esc = []")
  case True
  then have "length pre = length pre + length (r @ esc_bytes esc)" by simp
  then show ?thesis
    unfolding fstring_find_literal_def find_literal_loop_last[OF run] Let_def
    using True by simp
next
  case False
  with dec have d: "literal_decodes env raw (r @ esc_bytes esc) v" by simp
  from False have ne: "length pre \<noteq> length pre + length (r @ esc_bytes esc)" by simp
  have bb: "bytes_between (pre @ (r @ esc_bytes esc) @ suf) (length pre)
              (length pre + length (r @ esc_bytes esc)) = r @ esc_bytes esc"
    by (rule bytes_between_mid)
  show ?thesis
    unfolding fstring_find_literal_def find_literal_loop_last[OF run] Let_def
    using False
    by (simp only: lit_scan.case ne if_True if_False bb literal_decodes_decode_literal[OF d]
                   prod.case option.case simp_thms)
qed

lemma ConcatAndDel_literal_state:
  "FstringParser_ConcatAndDel (literal_state acc) v = (0, literal_state (acc @ v))"
  by (simp add: FstringParser_ConcatAndDel_def literal_state_def)

lemma concat_iteration_continue:
  "concat_iteration q (literal_state acc) t 1 (Some v) None None = (1, literal_state (acc @ v))"
  by (simp add: concat_iteration_def ConcatAndDel_literal_state)

lemma concat_iteration_stop:
  "concat_iteration q (literal_state acc) t 0 lit None None
     = (0, literal_state (acc @ (case lit of None \<Rightarrow> [] | Some v \<Rightarrow> v)))"
  by (simp add: concat_iteration_def ConcatAndDel_literal_state split: option.splits)

lemma ConcatFstring_loop_segment:
  assumes ok: "seg_ok env raw g"
      and len: "length pre + length (seg_text g) \<le> end'"
  shows "ConcatFstring_loop (Suc fuel) env p (literal_state acc) (pre @ seg_text g @ suf)
           (length pre) end' raw 0 t
         = ConcatFstring_loop fuel env p (literal_state (acc @ seg_value g)) (pre @ seg_text g @ suf)
             (length pre + length (seg_text g)) end' raw 0 t"
proof -
  from ok have run: "literal_run raw (seg_run g)"
    and b: "seg_brace g = CHR ''{'' \<or> seg_brace g = CHR ''}''"
    and esc: "seg_esc g \<longrightarrow> \<not> raw \<and>
          (seg_brace g = CHR ''{'' \<longrightarrow> PyErr_WarnExplicitObject env (CHR ''{'') = WarnIssued)"
    and dec: "literal_decodes env raw (seg_run g @ esc_bytes (seg_esc g) @ [seg_brace g]) (seg_value g)"
    by (simp_all add: seg_ok_def seg_piece_def)
  from len have len': "length pre + length (seg_run g @ esc_bytes (seg_esc g) @ [seg_brace g, seg_brace g])
                        \<le> end'"
    by (simp add: seg_text_def)
  have f: "fstring_find_literal env p (pre @ seg_text g @ suf) (length pre) end' raw 0
             = (1, length pre + length (seg_text g), Some (seg_value g), p)"
    using fstring_find_literal_segment[OF run b esc len' dec, of p suf]
    by (simp add: seg_text_def)
  have i: "fstring_find_literal_and_expr_with (ConcatFstring_loop fuel) env p (pre @ seg_text g @ suf)
             (length pre) end' raw 0 t
           = Done (1, length pre + length (seg_text g), Some (seg_value g), None, None, p)"
    by (rule find_literal_and_expr_no_expr[OF f]) simp
  show ?thesis
    apply (subst ConcatFstring_loop.simps(2))
    apply (subst i)
    apply (simp only: concat_iteration_continue run.case prod.case if_True simp_thms)
    done
qed

lemma ConcatFstring_loop_segments:
  assumes "list_all (seg_ok env raw) segs"
      and "length pre + length (concat (map seg_text segs)) \<le> end'"
  shows "ConcatFstring_loop (length segs + fuel) env p (literal_state acc)
           (pre @ concat (map seg_text segs) @ suf) (length pre) end' raw 0 t
         = ConcatFstring_loop fuel env p (literal_state (acc @ concat (map seg_value segs)))
             (pre @ concat (map seg_text segs) @ suf)
             (length pre + length (concat (map seg_text segs))) end' raw 0 t"
  using assms
proof (induction segs arbitrary: pre acc)
  case Nil
  then show ?case by simp
next
  case (Cons g gs)
  let ?buf = "pre @ concat (map seg_text (g # gs)) @ suf"
  have buf: "?buf = pre @ seg_text g @ (concat (map seg_text gs) @ suf)" by simp
  have buf2: "?buf = (pre @ seg_text g) @ concat (map seg_text gs) @ suf" by simp
  from Cons.prems have ok: "seg_ok env raw g" and oks: "list_all (seg_ok env raw) gs" by simp_all
  from Cons.prems have l1: "length pre + length (seg_text g) \<le> end'"
    and l2: "length (pre @ seg_text g) + length (concat (map seg_text gs)) \<le> end'" by simp_all
  have "ConcatFstring_loop (length (g # gs) + fuel) env p (literal_state acc) ?buf (length pre)
          end' raw 0 t
        = ConcatFstring_loop (Suc (length gs + fuel)) env p (literal_state acc) ?buf (length pre)
          end' raw 0 t" by simp
  also have "\<dots> = ConcatFstring_loop (length gs + fuel) env p (literal_state (acc @ seg_value g)) ?buf
                     (length pre + length (seg_text g)) end' raw 0 t"
    unfolding buf by (rule ConcatFstring_loop_segment[OF ok l1])
  also have "\<dots> = ConcatFstring_loop fuel env p
                     (literal_state ((acc @ seg_value g) @ concat (map seg_value gs))) ?buf
                     (length (pre @ seg_text g) + length (concat (map seg_text gs))) end' raw 0 t"
    unfolding buf2 using Cons.IH[OF oks l2, of "acc @ seg_value g"]
    by (simp del: ConcatFstring_loop.simps)
  finally show ?case by (simp add: add.assoc del: ConcatFstring_loop.simps)
qed

lemma ConcatFstring_loop_last:
  assumes run: "literal_run raw r"
      and dec: "if r @ esc_bytes esc = [] then v = [] else literal_decodes env raw (r @ esc_bytes esc) v"
  shows "ConcatFstring_loop (Suc fuel) env p (literal_state acc) (pre @ (r @ esc_bytes esc) @ suf)
           (length pre) (length pre + length (r @ esc_bytes esc)) raw 0 t
         = Done (0, length pre + length (r @ esc_bytes esc), literal_state (acc @ v), p)"
proof -
  let ?e = "length pre + length (r @ esc_bytes esc)"
  from dec have d: "r @ esc_bytes esc \<noteq> [] \<longrightarrow> literal_decodes env raw (r @ esc_bytes esc) v"
    by (simp split: if_splits)
  have f: "fstring_find_literal env p (pre @ (r @ esc_bytes esc) @ suf) (length pre) ?e raw 0
             = (0, ?e, if r @ esc_bytes esc = [] then None else Some v, p)"
    by (rule fstring_find_literal_last[OF run d])
  have i: "fstring_find_literal_and_expr_with (ConcatFstring_loop fuel) env p
             (pre @ (r @ esc_bytes esc) @ suf) (length pre) ?e raw 0 t
           = Done (0, ?e, if r @ esc_bytes esc = [] then None else Some v, None, None, p)"
    by (rule find_literal_and_expr_no_expr[OF f]) simp
  have v: "(case (if r @ esc_bytes esc = [] then None else Some v) of None \<Rightarrow> [] | Some w \<Rightarrow> w) = v"
    using dec by (simp split: if_splits)
  show ?thesis
    apply (subst ConcatFstring_loop.simps(2))
    apply (subst i)
    apply (simp only: concat_iteration_stop v run.case prod.case)
    apply simp
    done
qed

lemma ConcatFstring_literal:
  assumes segs: "list_all (seg_ok env raw) segs"
      and run: "literal_run raw r"
      and dec: "if r @ esc_bytes esc = [] then v = [] else literal_decodes env raw (r @ esc_bytes esc) v"
  shows "FstringParser_ConcatFstring (length segs + Suc fuel) env p FstringParser_Init
           ((concat (map seg_text segs) @ r @ esc_bytes esc) @ suf) 0
           (length (concat (map seg_text segs) @ r @ esc_bytes esc)) raw 0 t
         = Done (0, length (concat (map seg_text segs) @ r @ esc_bytes esc),
                 literal_state (concat (map seg_value segs) @ v), p)"
proof -
  let ?s = "concat (map seg_text segs)"
  let ?e = "length (?s @ r @ esc_bytes esc)"
  let ?buf = "(?s @ r @ esc_bytes esc) @ suf"
  have init: "FstringParser_Init\<lparr>fmode := True\<rparr> = literal_state []"
    by (simp add: FstringParser_Init_def literal_state_def)
  have l: "length ([]::string) + length ?s \<le> ?e" by simp
  have 1: "ConcatFstring_loop (length segs + Suc fuel) env p (literal_state []) ?buf 0 ?e raw 0 t
           = ConcatFstring_loop (Suc fuel) env p (literal_state (concat (map seg_value segs))) ?buf
               (length ?s) ?e raw 0 t"
    using ConcatFstring_loop_segments[OF segs l, of "Suc fuel" p "[]" "(r @ esc_bytes esc) @ suf" t]
    by simp
  have 2: "ConcatFstring_loop (Suc fuel) env p (literal_state (concat (map seg_value segs))) ?buf
               (length ?s) ?e raw 0 t
           = Done (0, ?e, literal_state (concat (map seg_value segs) @ v), p)"
    using ConcatFstring_loop_last[OF run dec, of fuel p "concat (map seg_value segs)" ?s suf t]
    by simp
  have ce: "concat_end ?buf ?e 0 ?e p = (0, p)" by (simp add: concat_end_def)
  show ?thesis
    unfolding FstringParser_ConcatFstring_def FstringParser_ConcatFstring_with_def init 1 2
    by (simp only: run.case prod.case ce) (simp del: ConcatFstring_loop.simps)
qed

lemma literal_run_examples:
  "literal_run False [CHR 0x5C, CHR ''N'', CHR ''{'', CHR ''X'', CHR ''}'']
   \<and> literal_run False [CHR ''a'', CHR 0x5C, CHR ''n'', CHR 0xC3, CHR 0xA9]
   \<and> literal_run True [CHR ''a'', CHR 0x5C]
   \<and> \<not> literal_run False [CHR ''a'', CHR ''{'', CHR ''b'']
   \<and> \<not> literal_run False [CHR 0x5C, CHR ''N'', CHR ''{'', CHR ''X'']"
  by simp

lemma inner_segment_ok: "seg_ok example_collab False inner_segment"
  by (simp add: seg_ok_def inner_segment_def seg_piece_def esc_bytes_def literal_decodes_def
                example_collab_def SIZE_MAX_def high_bit_def)

text \<open>
  Claim C7. Let the text \<open>x\<close> be made of segments (each a run of literal text, an
  optional backslash and a doubled brace) and a last part (a run and an optional
  backslash), and let the decoders of the interpreter give \<open>seg_value\<close> for the bytes of
  each segment up to its first brace, \<open>v_last\<close> for the last part, \<open>v_last\<close> followed by
  \<^verbatim>\<open>}\<close> for the last part followed by \<^verbatim>\<open>}\<close>, and \<^verbatim>\<open>{\<close> for \<^verbatim>\<open>{\<close>. Then
  \<open>x_literal\<close>, the values of the segments followed by \<open>v_last\<close>, is the literal that
  \<^verbatim>\<open>FstringParser_ConcatFstring\<close> produces for the body \<open>x\<close> at recursion depth 0, with no
  expression; and for the body \<^verbatim>\<open>{{\<close> \<open>x\<close> \<^verbatim>\<open>}}\<close> it produces the literal
  \<^verbatim>\<open>{\<close> \<open>x_literal\<close> \<^verbatim>\<open>}\<close> and no expression, whenever it may start one iteration for
  each doubled brace and one more. The call of \<^verbatim>\<open>fstring_find_literal\<close> at the opening
  pair returns 1 with the literal \<^verbatim>\<open>{\<close> and has stepped over both braces, and the
  call at the last part returns 1 with the literal \<open>v_last\<close> \<^verbatim>\<open>}\<close> and stands at the
  end. At any other depth the scan stops in front of the first brace, at the start as well
  as behind the last part, with result 0: the doubled braces are not collapsed.
\<close>

theorem doubled_braces_literal:
  fixes segs :: "segment list" and last_run :: string and last_esc :: bool
    and v_last :: "nat list" and rest :: string and env :: "'n collab" and p :: "'n Parser"
  defines "last_text \<equiv> last_run @ esc_bytes last_esc"
  defines "x \<equiv> concat (map seg_text segs) @ last_text"
      and "x_literal \<equiv> concat (map seg_value segs) @ v_last"
  defines "buf \<equiv> [CHR ''{'', CHR ''{''] @ x @ [CHR ''}'', CHR ''}''] @ rest"
      and "e \<equiv> length x + 4"
  assumes segs: "list_all (seg_ok env raw) segs"
      and run: "literal_run raw last_run"
      and esc: "last_esc \<longrightarrow> \<not> raw"
      and d_open: "literal_decodes env raw [CHR ''{''] [123]"
      and d_last: "if last_text = [] then v_last = [] else literal_decodes env raw last_text v_last"
      and d_close: "literal_decodes env raw (last_text @ [CHR ''}'']) (v_last @ [125])"
  shows "FstringParser_ConcatFstring (length segs + 1 + fuel) env p FstringParser_Init
             (x @ rest') 0 (length x) raw 0 t
           = Done (0, length x,
                   \<lparr>last_str = (if x_literal = [] then None else Some x_literal), expr_list = [],
                    fmode = True\<rparr>, p)
       \<and> FstringParser_ConcatFstring (length segs + 3 + fuel) env p FstringParser_Init buf 0 e raw 0 t
           = Done (0, e, \<lparr>last_str = Some ([123] @ x_literal @ [125]), expr_list = [],
                          fmode = True\<rparr>, p)
       \<and> fstring_find_literal env p buf 0 e raw 0 = (1, 2, Some [123], p)
       \<and> fstring_find_literal env p buf (2 + length (concat (map seg_text segs))) e raw 0
           = (1, e, Some (v_last @ [125]), p)
       \<and> (lvl \<noteq> 0 \<longrightarrow> fstring_find_literal env p buf 0 e raw lvl = (0, 0, None, p))
       \<and> (lvl \<noteq> 0 \<longrightarrow> find_literal_loop env buf e raw lvl (2 + length (concat (map seg_text segs))) p
                          = LitEnd (length x + 2) (length x + 2) 0 p)"
proof -
  let ?s = "concat (map seg_text segs)"
  define g0 where "g0 = \<lparr>seg_run = [], seg_esc = False, seg_brace = CHR ''{'', seg_value = [123]\<rparr>"
  define gl where "gl = \<lparr>seg_run = last_run, seg_esc = last_esc, seg_brace = CHR ''}'',
                         seg_value = v_last @ [125]\<rparr>"
  have e4: "length x + 4 = Suc (Suc (Suc (Suc (length x))))" by simp
  have ok0: "seg_ok env raw g0"
    using d_open by (simp add: seg_ok_def g0_def seg_piece_def esc_bytes_def)
  have okl: "seg_ok env raw gl"
    using run esc d_close by (simp add: seg_ok_def gl_def seg_piece_def last_text_def)
  have t0: "seg_text g0 = [CHR ''{'', CHR ''{'']" by (simp add: seg_text_def g0_def esc_bytes_def)
  have tl: "seg_text gl = last_text @ [CHR ''}'', CHR ''}'']"
    by (simp add: seg_text_def gl_def last_text_def)
  \<comment> \<open>the text alone\<close>
  have alone: "FstringParser_ConcatFstring (length segs + 1 + fuel) env p FstringParser_Init
             (x @ rest') 0 (length x) raw 0 t
           = Done (0, length x,
                   \<lparr>last_str = (if x_literal = [] then None else Some x_literal), expr_list = [],
                    fmode = True\<rparr>, p)"
    using ConcatFstring_literal[OF segs run d_last[unfolded last_text_def], of fuel p rest' t]
    by (simp add: x_def x_literal_def last_text_def literal_state_def
             del: ConcatFstring_loop.simps)
  \<comment> \<open>the text between doubled braces\<close>
  have all: "list_all (seg_ok env raw) (g0 # segs @ [gl])" using ok0 okl segs by simp
  have empty: "if [] @ esc_bytes False = [] then ([]::nat list) = []
               else literal_decodes env raw ([] @ esc_bytes False) []"
    by (simp add: esc_bytes_def)
  have lr0: "literal_run raw []" by simp
  have tx: "(concat (map seg_text (g0 # segs @ [gl])) @ [] @ esc_bytes False) = 
               [CHR ''{'', CHR ''{''] @ x @ [CHR ''}'', CHR ''}'']"
    by (simp add: t0 tl x_def esc_bytes_def)
  have val: "concat (map seg_value (g0 # segs @ [gl])) @ [] = [123] @ x_literal @ [125]"
    by (simp add: g0_def gl_def x_literal_def)
  have fl: "length (g0 # segs @ [gl]) + Suc fuel = length segs + 3 + fuel" by simp
  have between: "FstringParser_ConcatFstring (length segs + 3 + fuel) env p FstringParser_Init buf 0 e raw 0 t
           = Done (0, e, \<lparr>last_str = Some ([123] @ x_literal @ [125]), expr_list = [],
                          fmode = True\<rparr>, p)"
    using ConcatFstring_literal[OF all lr0 empty, of fuel p rest t]
    unfolding tx val fl
    by (simp add: buf_def e_def e4 literal_state_def del: ConcatFstring_loop.simps)
  \<comment> \<open>the two calls at the doubled braces\<close>
  have b0: "CHR ''{'' = CHR ''{'' \<or> CHR ''{'' = CHR ''}''" by simp
  have b1: "CHR ''}'' = CHR ''{'' \<or> CHR ''}'' = CHR ''}''" by simp
  have e0: "False \<longrightarrow> \<not> raw \<and> (CHR ''{'' = CHR ''{'' \<longrightarrow>
              PyErr_WarnExplicitObject env (CHR ''{'') = WarnIssued)" by simp
  have e1: "last_esc \<longrightarrow> \<not> raw \<and> (CHR ''}'' = CHR ''{'' \<longrightarrow>
              PyErr_WarnExplicitObject env (CHR ''{'') = WarnIssued)" using esc by simp
  have first: "fstring_find_literal env p buf 0 e raw 0 = (1, 2, Some [123], p)"
    using fstring_find_literal_segment[OF lr0 b0 e0, of "[]" e "[123]" p
            "x @ [CHR ''}'', CHR ''}''] @ rest"] d_open
    by (simp add: esc_bytes_def buf_def e_def e4)
  have closing: "fstring_find_literal env p buf (2 + length ?s) e raw 0
           = (1, e, Some (v_last @ [125]), p)"
    using fstring_find_literal_segment[OF run b1 e1, of "[CHR ''{'', CHR ''{''] @ ?s" e
            "v_last @ [125]" p rest] d_close
    by (simp add: buf_def e_def e4 x_def last_text_def)
  \<comment> \<open>inside a format specification\<close>
  have n0: "fstring_find_literal env p buf 0 e raw lvl = (0, 0, None, p)" if "lvl \<noteq> 0"
  proof -
    have "find_literal_loop env buf e raw lvl 0 p = LitEnd 0 0 0 p"
      using find_literal_loop_nested_brace[OF b0 e0 _ that, of "[]" e
              "CHR ''{'' # x @ [CHR ''}'', CHR ''}''] @ rest" p]
      by (simp add: esc_bytes_def buf_def e_def e4)
    then show ?thesis by (simp add: fstring_find_literal_def)
  qed
  have n1: "find_literal_loop env buf e raw lvl (2 + length ?s) p
              = LitEnd (length x + 2) (length x + 2) 0 p" if "lvl \<noteq> 0"
  proof -
    let ?pre = "[CHR ''{'', CHR ''{''] @ ?s"
    have bf: "buf = ?pre @ last_run @ (esc_bytes last_esc @ CHR ''}'' # CHR ''}'' # rest)"
      by (simp add: buf_def x_def last_text_def)
    have l1: "length ?pre + length last_run \<le> e" by (simp add: e_def e4 x_def last_text_def)
    have l2: "length (?pre @ last_run) + length (esc_bytes last_esc) < e"
      by (simp add: e_def e4 x_def last_text_def)
    have "find_literal_loop env buf e raw lvl (length ?pre) p
            = find_literal_loop env buf e raw lvl (length ?pre + length last_run) p"
      unfolding bf by (rule find_literal_loop_literal_run[OF run l1])
    also have "\<dots> = LitEnd (length (?pre @ last_run) + length (esc_bytes last_esc))
                       (length (?pre @ last_run) + length (esc_bytes last_esc)) 0 p"
      using find_literal_loop_nested_brace[OF b1 e1 l2 that, of "CHR ''}'' # rest" p]
      by (simp add: bf)
    finally show ?thesis by (simp add: x_def last_text_def)
  qed
  from alone between first closing n0 n1 show ?thesis by blast
qed

theorem doubled_braces_literal_witness:
  "list_all (seg_ok example_collab False) [inner_segment]
   \<and> literal_run False ''b''
   \<and> literal_decodes example_collab False [CHR ''{''] [123]
   \<and> literal_decodes example_collab False ''b'' [98]
   \<and> literal_decodes example_collab False [CHR ''b'', CHR ''}''] [98, 125]
   \<and> FstringParser_ConcatFstring 2 example_collab example_parser FstringParser_Init
         [CHR ''a'', CHR ''{'', CHR ''{'', CHR ''b'', CHR 0x22] 0 4 False 0 close_brace_token
       = Done (0, 4, \<lparr>last_str = Some [97, 123, 98], expr_list = [], fmode = True\<rparr>,
               example_parser)
   \<and> FstringParser_ConcatFstring 4 example_collab example_parser FstringParser_Init
         doubled_inner_body 0 8 False 0 close_brace_token
       = Done (0, 8, \<lparr>last_str = Some [123, 97, 123, 98, 125], expr_list = [], fmode = True\<rparr>,
               example_parser)
   \<and> fstring_find_literal example_collab example_parser doubled_inner_body 0 8 False 0
       = (1, 2, Some [123], example_parser)
   \<and> fstring_find_literal example_collab example_parser doubled_inner_body 5 8 False 0
       = (1, 8, Some [98, 125], example_parser)
   \<and> fstring_find_literal example_collab example_parser doubled_inner_body 0 8 False 1
       = (0, 0, None, example_parser)
   \<and> find_literal_loop example_collab doubled_inner_body 8 False 1 5 example_parser
       = LitEnd 6 6 0 example_parser"
proof -
  have segs: "list_all (seg_ok example_collab False) [inner_segment]"
    by (simp add: inner_segment_ok)
  have run: "literal_run False ''b''" by simp
  have esc: "False \<longrightarrow> \<not> False" by simp
  have d: "literal_decodes example_collab False [CHR ''{''] [123]"
          "literal_decodes example_collab False ''b'' [98]"
          "literal_decodes example_collab False [CHR ''b'', CHR ''}''] [98, 125]"
    by (simp_all add: literal_decodes_def example_collab_def SIZE_MAX_def high_bit_def)
  have d_last: "if ''b'' @ esc_bytes False = [] then [98::nat] = []
                else literal_decodes example_collab False (''b'' @ esc_bytes False) [98]"
    using d(2) by (simp add: esc_bytes_def)
  have d_close: "literal_decodes example_collab False ((''b'' @ esc_bytes False) @ [CHR ''}''])
                   ([98] @ [125])"
    using d(3) by (simp add: esc_bytes_def)
  have v: "seg_text inner_segment = [CHR ''a'', CHR ''{'', CHR ''{'']"
          "seg_value inner_segment = [97, 123]"
    by (simp_all add: seg_text_def inner_segment_def esc_bytes_def)
  have n: "(2::nat) = Suc (Suc 0)" "(3::nat) = Suc (Suc (Suc 0))" "(4::nat) = Suc (Suc (Suc (Suc 0)))"
          "(5::nat) = Suc (Suc (Suc (Suc (Suc 0))))" "(6::nat) = Suc (Suc (Suc (Suc (Suc (Suc 0)))))"
          "(8::nat) = Suc (Suc (Suc (Suc (Suc (Suc (Suc (Suc 0)))))))"
    by simp_all
  show ?thesis
    using doubled_braces_literal[OF segs run esc d(1) d_last d_close,
            of 0 example_parser "[CHR 0x22]" close_brace_token "[CHR 0x22]" 1]
          segs run d
    unfolding doubled_inner_body_def
    by (simp add: v esc_bytes_def n del: ConcatFstring_loop.simps)
qed

subsection \<open>A pending literal when the segmenter fails\<close>

text \<open>With an error pending, \<^verbatim>\<open>make_str_node_and_del\<close> returns null for a string that
  does not start with \<^verbatim>\<open>u\<close>, and \<^verbatim>\<open>FstringParser_Finish\<close> then returns null for an
  accumulator with a pending literal. So for the token \<^verbatim>\<open>f"a{{}"\<close>, where the segmenter
  fails at the lone closing brace with the literal \<^verbatim>\<open>a{\<close> pending, \<^verbatim>\<open>string_token\<close>
  returns null with the error pending.\<close>

lemma make_str_node_and_del_error:
  assumes "err p \<noteq> None" and "s = [] \<or> hd s \<noteq> 117"
  shows "make_str_node_and_del p s t = None"
  using assms by (auto simp: make_str_node_and_del_def)

lemma FstringParser_Finish_error:
  assumes "err p \<noteq> None" and "last_str state = Some s" and "s = [] \<or> hd s \<noteq> 117"
  shows "FstringParser_Finish p state t = None"
  using assms by (auto simp: FstringParser_Finish_def make_str_node_and_del_def)

lemma literal_brace_expect:
  "expect_token literal_brace_parser STRING =
     Some (Some literal_brace_token, literal_brace_parser\<lparr>mark := 1\<rparr>)"
  by (simp add: expect_token_def expect_token_at_def literal_brace_parser_def example_parser_def
                literal_brace_token_def Let_def)

lemma literal_brace_parsestr:
  "parsestr env p (t_bytes literal_brace_token) =
     Some (\<lparr>ps_rc = 0, ps_bytesmode = False, ps_rawmode = False, ps_result = None,
             ps_fstr = Some [CHR ''a'', CHR ''{'', CHR ''{'', CHR ''}'', CHR 0x22], ps_fstrlen = 4\<rparr>, p)"
  by (simp add: parsestr_def c_str_def char_at_def Py_ISALPHA_def Let_def INT_MAX_def
                strip_triple_def parsestr_body_def literal_brace_token_def)

lemma literal_brace_scan:
  "find_literal_loop env [CHR ''a'', CHR ''{'', CHR ''{'', CHR ''}'', CHR 0x22]
     (Suc (Suc (Suc (Suc 0)))) False 0 (Suc (Suc (Suc 0))) p =
     LitError (Some (Suc (Suc (Suc 0)))) (raise_syntax_error p single_close_brace_msg)"
  by (subst find_literal_loop.simps)
     (simp add: find_literal_step_def find_literal_braces_def char_at_def single_close_brace_msg_def)

lemma literal_brace_loop:
  "ConcatFstring_loop (Suc (Suc fuel)) example_collab p (literal_state [])
     [CHR ''a'', CHR ''{'', CHR ''{'', CHR ''}'', CHR 0x22] 0 (Suc (Suc (Suc (Suc 0)))) False 0 t =
     Done (-1, Suc (Suc (Suc 0)), literal_state [97, 123], raise_syntax_error p single_close_brace_msg)"
proof -
  have l: "length ([]::string) + length (seg_text inner_segment) \<le> Suc (Suc (Suc (Suc 0)))"
    by (simp add: seg_text_def inner_segment_def esc_bytes_def)
  have 2: "ConcatFstring_loop (Suc fuel) example_collab p (literal_state [97, 123])
     [CHR ''a'', CHR ''{'', CHR ''{'', CHR ''}'', CHR 0x22] (Suc (Suc (Suc 0)))
       (Suc (Suc (Suc (Suc 0)))) False 0 t =
     Done (-1, Suc (Suc (Suc 0)), literal_state [97, 123],
           raise_syntax_error p single_close_brace_msg)"
    by (simp add: fstring_find_literal_and_expr_with_def find_literal_part_def
                  fstring_find_literal_def literal_brace_scan concat_iteration_def)
  show ?thesis
    using ConcatFstring_loop_segment[OF inner_segment_ok l, of "Suc fuel" p "[]"
            "[CHR ''}'', CHR 0x22]" t] 2
    by (simp add: seg_text_def inner_segment_def esc_bytes_def del: ConcatFstring_loop.simps)
qed

lemma string_token_null_with_pending_literal:
  "string_token (Suc (Suc fuel)) example_collab literal_brace_parser
     = Done (None, raise_syntax_error (literal_brace_parser\<lparr>mark := 1\<rparr>)
                     single_close_brace_msg)"
proof -
  have init: "FstringParser_Init\<lparr>fmode := True\<rparr> = literal_state []"
    by (simp add: FstringParser_Init_def literal_state_def)
  have n: "(4::nat) = Suc (Suc (Suc (Suc 0)))" "(3::nat) = Suc (Suc (Suc 0))" by simp_all
  have c: "FstringParser_ConcatFstring (Suc (Suc fuel)) example_collab p FstringParser_Init
             [CHR ''a'', CHR ''{'', CHR ''{'', CHR ''}'', CHR 0x22] 0 4 False 0 t
           = Done (-1, 3, literal_state [97, 123], raise_syntax_error p single_close_brace_msg)"
    for p :: "nat Parser" and t
    unfolding FstringParser_ConcatFstring_def FstringParser_ConcatFstring_with_def init n
              literal_brace_loop
    by simp
  have f: "FstringParser_Finish (raise_syntax_error p single_close_brace_msg)
             (literal_state [97, 123]) literal_brace_token = None" for p :: "nat Parser"
    by (rule FstringParser_Finish_error[where s = "[97, 123]"])
       (simp_all add: raise_syntax_error_def literal_state_def)
  show ?thesis
    unfolding string_token_def literal_brace_expect
    by (simp add: literal_brace_parsestr c f Let_def
             del: ConcatFstring_loop.simps)
qed

end
